theory Spec2Isabelle
  imports Complex_Main
begin

section \<open>Arrays, exceptions and the store\<close>

text \<open>
  The notebook \<^verbatim>\<open>bias-variance.ipynb\<close> is embedded as follows.
  A one-dimensional float array is the list of its entries, with \<^typ>\<open>real\<close>
  standing for a float: there is no nan and no rounding. The range of the floats is
  written out in the two places where the notebook's results depend on it: a square
  that underflows is 0.0 (\<open>underflow\<close>, in \<open>np_square\<close>), and a matrix entry that
  overflows is infinite and refused by sklearn (\<open>overflows\<close>, in \<open>predict\<close>).
  A two-dimensional array is the list of its rows. An array that the
  notebook shares by reference and writes in place (a coefficient vector) lives in the
  store, and a reference is its index there; every other array is a value.
  A Python exception is the \<open>Inl\<close> branch of a sum.
\<close>

type_synonym ndarray = "real list"
type_synonym matrix = "real list list"
type_synonym ref = nat

datatype error =
    NotImplementedError
  | IndexError
  | ValueError
  | TypeError
  | NotANumber \<comment> \<open>not an exception: \<^verbatim>\<open>np.mean\<close> of an empty array is nan\<close>
  | InvalidReference \<comment> \<open>not an exception: a reference that was never allocated\<close>

record 'g world =
  ndarrays :: "ndarray list" \<comment> \<open>the arrays shared by reference, by address\<close>
  np_random :: 'g \<comment> \<open>the state of the global generator \<^verbatim>\<open>np.random\<close>\<close>

definition alloc :: "ndarray \<Rightarrow> 'g world \<Rightarrow> ref \<times> 'g world" where
  "alloc a w = (length (ndarrays w), w\<lparr>ndarrays := ndarrays w @ [a]\<rparr>)"

definition deref :: "ref \<Rightarrow> 'g world \<Rightarrow> error + ndarray" where
  "deref r w = (if r < length (ndarrays w) then Inr (ndarrays w ! r) else Inl InvalidReference)"

definition overwrite :: "ref \<Rightarrow> ndarray \<Rightarrow> 'g world \<Rightarrow> 'g world" where
  "overwrite r a w = w\<lparr>ndarrays := (ndarrays w)[r := a]\<rparr>"

text \<open>\<^verbatim>\<open>a[i]\<close> and \<^verbatim>\<open>a[i] = v\<close> for an index \<open>i \<ge> 0\<close>; the read returns a scalar, not a view.\<close>

definition getitem :: "ref \<Rightarrow> nat \<Rightarrow> 'g world \<Rightarrow> error + real" where
  "getitem r i w =
     (case deref r w of
        Inl e \<Rightarrow> Inl e
      | Inr a \<Rightarrow> if i < length a then Inr (a ! i) else Inl IndexError)"

definition setitem :: "ref \<Rightarrow> nat \<Rightarrow> real \<Rightarrow> 'g world \<Rightarrow> error + 'g world" where
  "setitem r i v w =
     (case deref r w of
        Inl e \<Rightarrow> Inl e
      | Inr a \<Rightarrow> if i < length a then Inr (overwrite r (a[i := v]) w) else Inl IndexError)"

text \<open>
  \<^verbatim>\<open>a += b\<close> on arrays writes into \<open>a\<close>: the result must have the shape of \<open>a\<close>, so
  \<open>b\<close> has the length of \<open>a\<close> or is a single entry that is broadcast. \<open>add_into\<close> is
  the new content of \<open>a\<close>.
\<close>

definition add_into :: "ndarray \<Rightarrow> ndarray \<Rightarrow> error + ndarray" where
  "add_into a b =
     (if length b = length a then Inr (map2 (+) a b)
      else if length b = 1 then Inr (map (\<lambda>x. x + hd b) a)
      else Inl ValueError)"

definition iadd :: "ref \<Rightarrow> ref \<Rightarrow> 'g world \<Rightarrow> error + 'g world" where
  "iadd r q w =
     (case deref r w of
        Inl e \<Rightarrow> Inl e
      | Inr a \<Rightarrow>
          (case deref q w of
             Inl e \<Rightarrow> Inl e
           | Inr b \<Rightarrow>
               (case add_into a b of
                  Inl e \<Rightarrow> Inl e
                | Inr c \<Rightarrow> Inr (overwrite r c w))))"

text \<open>\<^verbatim>\<open>a /= c\<close> for a float \<open>c\<close>.\<close>

definition itruediv :: "ref \<Rightarrow> real \<Rightarrow> 'g world \<Rightarrow> error + 'g world" where
  "itruediv r c w =
     (case deref r w of
        Inl e \<Rightarrow> Inl e
      | Inr a \<Rightarrow> Inr (overwrite r (map (\<lambda>x. x / c) a) w))"

text \<open>Binary operators on two one-dimensional arrays, with numpy's broadcasting.\<close>

definition np_binop :: "(real \<Rightarrow> real \<Rightarrow> real) \<Rightarrow> ndarray \<Rightarrow> ndarray \<Rightarrow> error + ndarray" where
  "np_binop f a b =
     (if length a = length b then Inr (map2 f a b)
      else if length b = 1 then Inr (map (\<lambda>x. f x (hd b)) a)
      else if length a = 1 then Inr (map (\<lambda>y. f (hd a) y) b)
      else Inl ValueError)"

definition np_add :: "ndarray \<Rightarrow> ndarray \<Rightarrow> error + ndarray" where
  "np_add = np_binop (+)"

definition np_subtract :: "ndarray \<Rightarrow> ndarray \<Rightarrow> error + ndarray" where
  "np_subtract = np_binop (-)"

text \<open>
  \<^verbatim>\<open>a ** 2\<close>: the float square is 0.0 when the exact square is at most \<open>2^-1075\<close>,
  half the least positive float.
\<close>

definition underflow :: "real \<Rightarrow> real" where
  "underflow y = (if \<bar>y\<bar> \<le> 1 / 2 ^ 1075 then 0 else y)"

definition np_square :: "ndarray \<Rightarrow> ndarray" where
  "np_square a = map (\<lambda>x. underflow (x ^ 2)) a"

definition np_mean :: "ndarray \<Rightarrow> error + real" where
  "np_mean a = (if a = [] then Inl NotANumber else Inr (sum_list a / real (length a)))"

definition np_arange :: "real \<Rightarrow> real \<Rightarrow> real \<Rightarrow> ndarray" where
  "np_arange start stop step =
     map (\<lambda>i. start + real i * step) [0..<nat \<lceil>(stop - start) / step\<rceil>]"

section \<open>The libraries the notebook calls\<close>

text \<open>
  The generator and the least-squares solvers are not code of the notebook. They are
  parameters of the model: a generator state of any type \<open>'g\<close> with numpy's seeding
  and its two elementary draws, and \<^verbatim>\<open>fit\<close> of an sklearn linear estimator, which
  either raises or sets \<^verbatim>\<open>coef_\<close> and \<^verbatim>\<open>intercept_\<close>.
\<close>

datatype estimator = LinearRegression | Ridge real

record 'g extern =
  rk_seed :: "nat \<Rightarrow> 'g"
  rk_double :: "'g \<Rightarrow> real \<times> 'g" \<comment> \<open>one draw from [0, 1)\<close>
  rk_gauss :: "'g \<Rightarrow> real \<times> 'g" \<comment> \<open>one standard normal draw\<close>
  linear_fit :: "estimator \<Rightarrow> matrix \<Rightarrow> ndarray \<Rightarrow> error + (ndarray \<times> real)"

text \<open>\<^verbatim>\<open>np.random.seed(n)\<close> replaces the global generator's state.\<close>

definition random_seed :: "'g extern \<Rightarrow> nat \<Rightarrow> 'g world \<Rightarrow> 'g world" where
  "random_seed L n w = w\<lparr>np_random := rk_seed L n\<rparr>"

text \<open>An array of \<open>n\<close> draws is filled entry by entry, each draw advancing the generator.\<close>

fun draws :: "('g \<Rightarrow> real \<times> 'g) \<Rightarrow> nat \<Rightarrow> 'g \<Rightarrow> ndarray \<times> 'g" where
  "draws d 0 g = ([], g)"
| "draws d (Suc n) g =
     (case d g of (v, g1) \<Rightarrow> (case draws d n g1 of (vs, g2) \<Rightarrow> (v # vs, g2)))"

definition random_uniform :: "'g extern \<Rightarrow> real \<Rightarrow> real \<Rightarrow> nat \<Rightarrow> 'g world \<Rightarrow> ndarray \<times> 'g world" where
  "random_uniform L low high n w =
     (case draws (rk_double L) n (np_random w) of
        (us, g) \<Rightarrow> (map (\<lambda>u. low + (high - low) * u) us, w\<lparr>np_random := g\<rparr>))"

definition random_normal :: "'g extern \<Rightarrow> real \<Rightarrow> nat \<Rightarrow> 'g world \<Rightarrow> ndarray \<times> 'g world" where
  "random_normal L scale n w =
     (case draws (rk_gauss L) n (np_random w) of
        (zs, g) \<Rightarrow> (map (\<lambda>z. 0 + scale * z) zs, w\<lparr>np_random := g\<rparr>))"

text \<open>
  \<^verbatim>\<open>PolynomialFeatures(degree).fit_transform\<close> of \<^verbatim>\<open>np.reshape(x, (-1, 1))\<close>: the
  column of the entries of \<open>x\<close> becomes the matrix of their powers \<open>0 .. degree\<close>, one row
  per entry; sklearn refuses an array with no sample. A matrix of one column is
  represented by that column.
\<close>

definition reshape_column :: "ndarray \<Rightarrow> ndarray" where
  "reshape_column x = x"

definition fit_transform :: "nat \<Rightarrow> ndarray \<Rightarrow> error + matrix" where
  "fit_transform degree col =
     (if col = [] then Inl ValueError
      else Inr (map (\<lambda>v. map (\<lambda>k. v ^ k) [0..<Suc degree]) col))"

text \<open>
  \<^verbatim>\<open>model.predict(A)\<close> of a linear model is \<^verbatim>\<open>np.dot(A, coef_) + intercept_\<close>;
  the product needs as many coefficients as \<open>A\<close> has columns.
\<close>

definition np_dot :: "matrix \<Rightarrow> ndarray \<Rightarrow> error + ndarray" where
  "np_dot A c =
     (if list_all (\<lambda>row. length row = length c) A
      then Inr (map (\<lambda>row. sum_list (map2 (*) row c)) A)
      else Inl ValueError)"

text \<open>
  \<^verbatim>\<open>predict\<close> validates its matrix first and raises \<^verbatim>\<open>ValueError\<close> when an entry is
  infinite, which the float of a power of magnitude \<open>2^1024\<close> or more is.
\<close>

definition overflows :: "real \<Rightarrow> bool" where
  "overflows v = (2 ^ 1024 \<le> \<bar>v\<bar>)"

definition predict :: "ndarray \<Rightarrow> real \<Rightarrow> matrix \<Rightarrow> error + ndarray" where
  "predict c b A =
     (if A = [] \<or> list_ex (list_ex overflows) A then Inl ValueError
      else case np_dot A c of
             Inl e \<Rightarrow> Inl e
           | Inr v \<Rightarrow> Inr (map (\<lambda>t. t + b) v))"

section \<open>The hypothesis spaces\<close>

text \<open>
  The abstract class and its two subclasses. The two subclasses have the same code but
  for the estimator they construct, so each method has one body, \<open>train10\<close> and
  \<open>assign10\<close>, with the estimator as its argument.
\<close>

datatype hypothesis_space = HypothesisSpace | UnRegularized10thModel | Regularized10thModel

text \<open>The object that the lambda returned by \<^verbatim>\<open>assign\<close> captures.\<close>

record predictor =
  coef :: ref \<comment> \<open>\<^verbatim>\<open>model.coef_\<close>: a reference to the array, not a copy\<close>
  intercept :: real \<comment> \<open>\<^verbatim>\<open>model.intercept_\<close>: a scalar\<close>

definition train10 ::
  "'g extern \<Rightarrow> estimator \<Rightarrow> ndarray \<Rightarrow> ndarray \<Rightarrow> 'g world \<Rightarrow> error + (ref \<times> 'g world)" where
  "train10 L trainer X y w =
     (case fit_transform 10 (reshape_column X) of
        Inl e \<Rightarrow> Inl e
      | Inr poly_X \<Rightarrow>
          (case linear_fit L trainer poly_X y of
             Inl e \<Rightarrow> Inl e
           | Inr (coef_, intercept_) \<Rightarrow>
               (case alloc coef_ w of
                  (params, w1) \<Rightarrow>
                    (case setitem params 0 intercept_ w1 of
                       Inl e \<Rightarrow> Inl e
                     | Inr w2 \<Rightarrow> Inr (params, w2)))))"

fun train ::
  "'g extern \<Rightarrow> hypothesis_space \<Rightarrow> ndarray \<Rightarrow> ndarray \<Rightarrow> 'g world \<Rightarrow> error + (ref \<times> 'g world)" where
  "train L HypothesisSpace X y w = Inl NotImplementedError"
| "train L UnRegularized10thModel X y w = train10 L LinearRegression X y w"
| "train L Regularized10thModel X y w = train10 L (Ridge 2) X y w"

definition assign10 :: "ref \<Rightarrow> 'g world \<Rightarrow> error + (predictor \<times> 'g world)" where
  "assign10 params w =
     (case getitem params 0 w of
        Inl e \<Rightarrow> Inl e
      | Inr intercept0 \<Rightarrow>
          (case setitem params 0 0 w of
             Inl e \<Rightarrow> Inl e
           | Inr w1 \<Rightarrow> Inr (\<lparr>coef = params, intercept = intercept0\<rparr>, w1)))"

fun assign :: "hypothesis_space \<Rightarrow> ref \<Rightarrow> 'g world \<Rightarrow> error + (predictor \<times> 'g world)" where
  "assign HypothesisSpace params w = Inl NotImplementedError"
| "assign UnRegularized10thModel params w = assign10 params w"
| "assign Regularized10thModel params w = assign10 params w"

text \<open>
  Calling the lambda: the coefficients are read from the store when the predictor is
  called, the transform is \<^verbatim>\<open>PolynomialFeatures(10)\<close> in both subclasses.
\<close>

definition call :: "predictor \<Rightarrow> ndarray \<Rightarrow> 'g world \<Rightarrow> error + ndarray" where
  "call h x w =
     (case fit_transform 10 (reshape_column x) of
        Inl e \<Rightarrow> Inl e
      | Inr A \<Rightarrow>
          (case deref (coef h) w of
             Inl e \<Rightarrow> Inl e
           | Inr c \<Rightarrow> predict c (intercept h) A))"

section \<open>The estimator\<close>

record BiasVariance =
  target :: "ndarray \<Rightarrow> ndarray"
  hypothesis_class :: hypothesis_space
  sample_x :: ndarray
  h_bar :: predictor

text \<open>
  The loop of \<^verbatim>\<open>_estimate_h_bar\<close>; the first argument of type \<open>nat\<close> is the number
  of trials still to run, \<open>datasets_mean_coef\<close> is \<open>None\<close> or a reference. In the first
  trial the accumulator becomes the very array that \<^verbatim>\<open>train\<close> returned.
\<close>

fun estimate_loop ::
  "'g extern \<Rightarrow> (ndarray \<Rightarrow> ndarray) \<Rightarrow> hypothesis_space \<Rightarrow> nat \<Rightarrow> ref option \<Rightarrow> 'g world
     \<Rightarrow> error + (ref option \<times> 'g world)" where
  "estimate_loop L f hc 0 datasets_mean_coef w = Inr (datasets_mean_coef, w)"
| "estimate_loop L f hc (Suc n) datasets_mean_coef w =
     (case random_uniform L (- 1) 1 200 w of
        (X, w1) \<Rightarrow>
          (case random_normal L 2 200 w1 of
             (noise, w2) \<Rightarrow>
               (case np_add (f X) noise of
                  Inl e \<Rightarrow> Inl e
                | Inr y \<Rightarrow>
                    (case train L hc X y w2 of
                       Inl e \<Rightarrow> Inl e
                     | Inr (trained_coef, w3) \<Rightarrow>
                         (case datasets_mean_coef of
                            None \<Rightarrow> estimate_loop L f hc n (Some trained_coef) w3
                          | Some m \<Rightarrow>
                              (case iadd m trained_coef w3 of
                                 Inl e \<Rightarrow> Inl e
                               | Inr w4 \<Rightarrow> estimate_loop L f hc n (Some m) w4))))))"

definition estimate_h_bar ::
  "'g extern \<Rightarrow> (ndarray \<Rightarrow> ndarray) \<Rightarrow> hypothesis_space \<Rightarrow> 'g world
     \<Rightarrow> error + (predictor \<times> 'g world)" where
  "estimate_h_bar L f hc w =
     (case estimate_loop L f hc 1000 None (random_seed L 1 w) of
        Inl e \<Rightarrow> Inl e
      | Inr (datasets_mean_coef, w1) \<Rightarrow>
          (case datasets_mean_coef of
             None \<Rightarrow> Inl TypeError
           | Some m \<Rightarrow>
               (case itruediv m 1000 w1 of
                  Inl e \<Rightarrow> Inl e
                | Inr w2 \<Rightarrow> assign hc m w2)))"

definition BiasVariance_init ::
  "'g extern \<Rightarrow> (ndarray \<Rightarrow> ndarray) \<Rightarrow> hypothesis_space \<Rightarrow> 'g world
     \<Rightarrow> error + (BiasVariance \<times> 'g world)" where
  "BiasVariance_init L f hc w =
     (case estimate_h_bar L f hc w of
        Inl e \<Rightarrow> Inl e
      | Inr (h, w1) \<Rightarrow>
          Inr (\<lparr>target = f, hypothesis_class = hc,
                sample_x = np_arange (- 1) 1 (1 / 100), h_bar = h\<rparr>, w1))"

definition bias2 :: "BiasVariance \<Rightarrow> 'g world \<Rightarrow> error + real" where
  "bias2 self w =
     (case call (h_bar self) (sample_x self) w of
        Inl e \<Rightarrow> Inl e
      | Inr hx \<Rightarrow>
          (case np_subtract hx (target self (sample_x self)) of
             Inl e \<Rightarrow> Inl e
           | Inr d \<Rightarrow> np_mean (np_square d)))"

fun variance_loop ::
  "'g extern \<Rightarrow> BiasVariance \<Rightarrow> nat \<Rightarrow> real list \<Rightarrow> 'g world \<Rightarrow> error + (real list \<times> 'g world)" where
  "variance_loop L self 0 datasets_variances w = Inr (datasets_variances, w)"
| "variance_loop L self (Suc n) datasets_variances w =
     (case random_uniform L (- 1) 1 200 w of
        (X, w1) \<Rightarrow>
          (case random_normal L 2 200 w1 of
             (noise, w2) \<Rightarrow>
               (case np_add (target self X) noise of
                  Inl e \<Rightarrow> Inl e
                | Inr y \<Rightarrow>
                    (case train L (hypothesis_class self) X y w2 of
                       Inl e \<Rightarrow> Inl e
                     | Inr (trained_coef, w3) \<Rightarrow>
                         (case assign (hypothesis_class self) trained_coef w3 of
                            Inl e \<Rightarrow> Inl e
                          | Inr (trained_instance, w4) \<Rightarrow>
                              (case call trained_instance X w4 of
                                 Inl e \<Rightarrow> Inl e
                               | Inr tx \<Rightarrow>
                                   (case call (h_bar self) X w4 of
                                      Inl e \<Rightarrow> Inl e
                                    | Inr hx \<Rightarrow>
                                        (case np_subtract tx hx of
                                           Inl e \<Rightarrow> Inl e
                                         | Inr d \<Rightarrow>
                                             (case np_mean (np_square d) of
                                                Inl e \<Rightarrow> Inl e
                                              | Inr var \<Rightarrow>
                                                  variance_loop L self n
                                                    (datasets_variances @ [var]) w4)))))))))"

definition variance :: "'g extern \<Rightarrow> BiasVariance \<Rightarrow> 'g world \<Rightarrow> error + (real \<times> 'g world)" where
  "variance L self w =
     (case variance_loop L self 1000 [] (random_seed L 1 w) of
        Inl e \<Rightarrow> Inl e
      | Inr (datasets_variances, w1) \<Rightarrow>
          (case np_mean datasets_variances of
             Inl e \<Rightarrow> Inl e
           | Inr v \<Rightarrow> Inr (v, w1)))"


section \<open>The notebook without the store\<close>

text \<open>
  What the least-squares solvers promise about shapes: \<^verbatim>\<open>coef_\<close> has one entry per
  column of the matrix that was fitted.
\<close>

definition solver_shape :: "'g extern \<Rightarrow> bool" where
  "solver_shape L =
     (\<forall>est A y c b. linear_fit L est A y = Inr (c, b) \<longrightarrow>
        length c = (case A of [] \<Rightarrow> 0 | row # _ \<Rightarrow> length row))"

text \<open>
  The content of the array \<^verbatim>\<open>train\<close> returns, and what a predictor computes from the
  content of its coefficient array: the same code with the store left out.
\<close>

definition fitted10 :: "'g extern \<Rightarrow> estimator \<Rightarrow> ndarray \<Rightarrow> ndarray \<Rightarrow> error + ndarray" where
  "fitted10 L trainer X y =
     (case fit_transform 10 (reshape_column X) of
        Inl e \<Rightarrow> Inl e
      | Inr poly_X \<Rightarrow>
          (case linear_fit L trainer poly_X y of
             Inl e \<Rightarrow> Inl e
           | Inr (c, b) \<Rightarrow> if c = [] then Inl IndexError else Inr (c[0 := b])))"

fun fitted :: "'g extern \<Rightarrow> hypothesis_space \<Rightarrow> ndarray \<Rightarrow> ndarray \<Rightarrow> error + ndarray" where
  "fitted L HypothesisSpace X y = Inl NotImplementedError"
| "fitted L UnRegularized10thModel X y = fitted10 L LinearRegression X y"
| "fitted L Regularized10thModel X y = fitted10 L (Ridge 2) X y"

text \<open>The matrix \<^verbatim>\<open>PolynomialFeatures(10)\<close> makes of a non-empty column.\<close>

definition powers10 :: "ndarray \<Rightarrow> matrix" where
  "powers10 X = map (\<lambda>v. map (\<lambda>k. v ^ k) [0..<11]) X"

definition bound_predict :: "ndarray \<Rightarrow> real \<Rightarrow> ndarray \<Rightarrow> error + ndarray" where
  "bound_predict c b x =
     (case fit_transform 10 (reshape_column x) of
        Inl e \<Rightarrow> Inl e
      | Inr A \<Rightarrow> predict c b A)"

text \<open>
  The estimation procedure in the words of the specification, on values only: a
  generator state goes in, a result and the next generator state come out. One trial
  draws 200 features uniformly from [-1, 1) and 200 noise values with standard
  deviation 2, the labels are the target at the features plus the noise.
\<close>

definition spec_features :: "'g extern \<Rightarrow> 'g \<Rightarrow> ndarray \<times> 'g" where
  "spec_features L g =
     (case draws (rk_double L) 200 g of (us, g1) \<Rightarrow> (map (\<lambda>u. 2 * u - 1) us, g1))"

definition spec_noise :: "'g extern \<Rightarrow> 'g \<Rightarrow> ndarray \<times> 'g" where
  "spec_noise L g =
     (case draws (rk_gauss L) 200 g of (zs, g1) \<Rightarrow> (map (\<lambda>z. 2 * z) zs, g1))"

definition spec_dataset ::
  "'g extern \<Rightarrow> (ndarray \<Rightarrow> ndarray) \<Rightarrow> 'g \<Rightarrow> (error + ndarray \<times> ndarray) \<times> 'g" where
  "spec_dataset L f g =
     (case spec_features L g of
        (features, g1) \<Rightarrow>
          (case spec_noise L g1 of
             (noise, g2) \<Rightarrow>
               (case np_add (f features) noise of
                  Inl e \<Rightarrow> (Inl e, g2)
                | Inr labels \<Rightarrow> (Inr (features, labels), g2))))"

text \<open>
  The data sets of the specification from a generator state on, in order, each with
  the generator state after it.
\<close>

fun spec_datasets ::
  "'g extern \<Rightarrow> (ndarray \<Rightarrow> ndarray) \<Rightarrow> nat \<Rightarrow> 'g \<Rightarrow> ((error + ndarray \<times> ndarray) \<times> 'g) list" where
  "spec_datasets L f 0 g = []"
| "spec_datasets L f (Suc n) g =
     (case spec_dataset L f g of (d, g2) \<Rightarrow> (d, g2) # spec_datasets L f n g2)"

text \<open>
  What a trial of each loop does with its data set, that is the loop body after its
  three generating lines, and a loop that takes the data set of each trial from a list
  instead of generating it: it stops at the first data set that could not be formed
  and at the first trial that raises.
\<close>

definition estimate_trial ::
  "'g extern \<Rightarrow> hypothesis_space \<Rightarrow> ndarray \<times> ndarray \<Rightarrow> ref option \<Rightarrow> 'g world
     \<Rightarrow> error + (ref option \<times> 'g world)" where
  "estimate_trial L hc Xy datasets_mean_coef w =
     (case Xy of
        (X, y) \<Rightarrow>
          (case train L hc X y w of
             Inl e \<Rightarrow> Inl e
           | Inr (trained_coef, w3) \<Rightarrow>
               (case datasets_mean_coef of
                  None \<Rightarrow> Inr (Some trained_coef, w3)
                | Some m \<Rightarrow>
                    (case iadd m trained_coef w3 of
                       Inl e \<Rightarrow> Inl e
                     | Inr w4 \<Rightarrow> Inr (Some m, w4)))))"

definition variance_trial ::
  "'g extern \<Rightarrow> BiasVariance \<Rightarrow> ndarray \<times> ndarray \<Rightarrow> real list \<Rightarrow> 'g world
     \<Rightarrow> error + (real list \<times> 'g world)" where
  "variance_trial L self Xy datasets_variances w =
     (case Xy of
        (X, y) \<Rightarrow>
          (case train L (hypothesis_class self) X y w of
             Inl e \<Rightarrow> Inl e
           | Inr (trained_coef, w3) \<Rightarrow>
               (case assign (hypothesis_class self) trained_coef w3 of
                  Inl e \<Rightarrow> Inl e
                | Inr (trained_instance, w4) \<Rightarrow>
                    (case call trained_instance X w4 of
                       Inl e \<Rightarrow> Inl e
                     | Inr tx \<Rightarrow>
                         (case call (h_bar self) X w4 of
                            Inl e \<Rightarrow> Inl e
                          | Inr hx \<Rightarrow>
                              (case np_subtract tx hx of
                                 Inl e \<Rightarrow> Inl e
                               | Inr d \<Rightarrow>
                                   (case np_mean (np_square d) of
                                      Inl e \<Rightarrow> Inl e
                                    | Inr var \<Rightarrow> Inr (datasets_variances @ [var], w4))))))))"

fun run_trials ::
  "(ndarray \<times> ndarray \<Rightarrow> 'a \<Rightarrow> 'g world \<Rightarrow> error + ('a \<times> 'g world))
     \<Rightarrow> ((error + ndarray \<times> ndarray) \<times> 'g) list \<Rightarrow> 'a \<Rightarrow> 'g world \<Rightarrow> error + ('a \<times> 'g world)" where
  "run_trials body [] acc w = Inr (acc, w)"
| "run_trials body ((d, g) # ds) acc w =
     (case d of
        Inl e \<Rightarrow> Inl e
      | Inr Xy \<Rightarrow>
          (case body Xy acc (w\<lparr>np_random := g\<rparr>) of
             Inl e \<Rightarrow> Inl e
           | Inr (acc', w') \<Rightarrow> run_trials body ds acc' w'))"

text \<open>
  The predictor bound to a parameter vector whose slot 0 is the intercept, and the mean
  of the squared differences of two prediction arrays of the same length, the squares
  being float squares.
\<close>

definition spec_bind :: "ndarray \<Rightarrow> ndarray \<Rightarrow> error + ndarray" where
  "spec_bind p x = bound_predict (p[0 := 0]) (p ! 0) x"

definition mean_squared_difference :: "ndarray \<Rightarrow> ndarray \<Rightarrow> real" where
  "mean_squared_difference a b =
     (\<Sum>i<length a. underflow ((a ! i - b ! i) ^ 2)) / real (length a)"

text \<open>
  The variance pass: each trial regenerates its data set, fits, binds the trial
  predictor and compares it with the mean hypothesis on the trial's own features; the
  result is the mean of the 1000 values.
\<close>

fun spec_trial_variances ::
  "'g extern \<Rightarrow> (ndarray \<Rightarrow> ndarray) \<Rightarrow> hypothesis_space \<Rightarrow> (ndarray \<Rightarrow> error + ndarray) \<Rightarrow> nat \<Rightarrow> 'g
     \<Rightarrow> error + (real list \<times> 'g)" where
  "spec_trial_variances L f hc mean_hypothesis 0 g = Inr ([], g)"
| "spec_trial_variances L f hc mean_hypothesis (Suc n) g =
     (case spec_dataset L f g of
        (Inl e, g2) \<Rightarrow> Inl e
      | (Inr (features, labels), g2) \<Rightarrow>
          (case fitted L hc features labels of
             Inl e \<Rightarrow> Inl e
           | Inr p \<Rightarrow>
               (case spec_bind p features of
                  Inl e \<Rightarrow> Inl e
                | Inr trial_predictions \<Rightarrow>
                    (case mean_hypothesis features of
                       Inl e \<Rightarrow> Inl e
                     | Inr mean_predictions \<Rightarrow>
                         (case spec_trial_variances L f hc mean_hypothesis n g2 of
                            Inl e \<Rightarrow> Inl e
                          | Inr (vs, g3) \<Rightarrow>
                              Inr (mean_squared_difference trial_predictions mean_predictions # vs,
                                   g3))))))"

definition spec_variance ::
  "'g extern \<Rightarrow> (ndarray \<Rightarrow> ndarray) \<Rightarrow> hypothesis_space \<Rightarrow> (ndarray \<Rightarrow> error + ndarray)
     \<Rightarrow> error + real" where
  "spec_variance L f hc mean_hypothesis =
     (case spec_trial_variances L f hc mean_hypothesis 1000 (rk_seed L 1) of
        Inl e \<Rightarrow> Inl e
      | Inr (vs, g) \<Rightarrow> Inr (sum_list vs / 1000))"

text \<open>
  The mean-hypothesis estimation in the words of the specification: the fitted
  parameter vectors of the trials, in order, and their element-wise arithmetic mean.
\<close>

fun spec_fits ::
  "'g extern \<Rightarrow> (ndarray \<Rightarrow> ndarray) \<Rightarrow> hypothesis_space \<Rightarrow> nat \<Rightarrow> 'g
     \<Rightarrow> error + (ndarray list \<times> 'g)" where
  "spec_fits L f hc 0 g = Inr ([], g)"
| "spec_fits L f hc (Suc n) g =
     (case spec_dataset L f g of
        (Inl e, g2) \<Rightarrow> Inl e
      | (Inr (features, labels), g2) \<Rightarrow>
          (case fitted L hc features labels of
             Inl e \<Rightarrow> Inl e
           | Inr p \<Rightarrow>
               (case spec_fits L f hc n g2 of
                  Inl e \<Rightarrow> Inl e
                | Inr (ps, g3) \<Rightarrow> Inr (p # ps, g3))))"

definition mean_vector :: "ndarray list \<Rightarrow> ndarray" where
  "mean_vector ps =
     (case ps of
        [] \<Rightarrow> []
      | p # _ \<Rightarrow> map (\<lambda>j. sum_list (map (\<lambda>q. q ! j) ps) / real (length ps)) [0..<length p])"

definition spec_mean_hypothesis ::
  "'g extern \<Rightarrow> (ndarray \<Rightarrow> ndarray) \<Rightarrow> hypothesis_space \<Rightarrow> error + ndarray" where
  "spec_mean_hypothesis L f hc =
     (case spec_fits L f hc 1000 (rk_seed L 1) of
        Inl e \<Rightarrow> Inl e
      | Inr (ps, g) \<Rightarrow> Inr (mean_vector ps))"

text \<open>
  The mean-hypothesis pass on values, step by step as the notebook runs it: there is
  no accumulator before the first trial, the first fitted vector becomes the
  accumulator, and each later one is added to it in place. The last two steps divide
  by 1000 and bind.
\<close>

fun accumulate_fits ::
  "'g extern \<Rightarrow> (ndarray \<Rightarrow> ndarray) \<Rightarrow> hypothesis_space \<Rightarrow> nat \<Rightarrow> ndarray option \<Rightarrow> 'g
     \<Rightarrow> error + (ndarray option \<times> 'g)" where
  "accumulate_fits L f hc 0 acc g = Inr (acc, g)"
| "accumulate_fits L f hc (Suc n) acc g =
     (case spec_dataset L f g of
        (Inl e, g2) \<Rightarrow> Inl e
      | (Inr (features, labels), g2) \<Rightarrow>
          (case fitted L hc features labels of
             Inl e \<Rightarrow> Inl e
           | Inr p \<Rightarrow>
               (case acc of
                  None \<Rightarrow> accumulate_fits L f hc n (Some p) g2
                | Some a \<Rightarrow>
                    (case add_into a p of
                       Inl e \<Rightarrow> Inl e
                     | Inr a' \<Rightarrow> accumulate_fits L f hc n (Some a') g2))))"

definition mean_hypothesis_values ::
  "'g extern \<Rightarrow> (ndarray \<Rightarrow> ndarray) \<Rightarrow> hypothesis_space \<Rightarrow> error + (real \<times> ndarray)" where
  "mean_hypothesis_values L f hc =
     (case accumulate_fits L f hc 1000 None (rk_seed L 1) of
        Inl e \<Rightarrow> Inl e
      | Inr (None, g) \<Rightarrow> Inl TypeError
      | Inr (Some a, g) \<Rightarrow>
          Inr (map (\<lambda>x. x / 1000) a ! 0, (map (\<lambda>x. x / 1000) a)[0 := 0]))"

text \<open>
  A small library for concrete runs. Its generator counts the draws, which are all 0.
  Its solver rejects labels of another length than the matrix has rows, as sklearn's
  input validation does, and otherwise answers the mean of the labels as intercept
  with all coefficients zero: the least-squares solution, and the ridge solution,
  whenever the centred labels vanish, as they do for a single observation.
\<close>

definition toy_fit :: "estimator \<Rightarrow> matrix \<Rightarrow> ndarray \<Rightarrow> error + (ndarray \<times> real)" where
  "toy_fit est A y =
     (if length y \<noteq> length A then Inl ValueError
      else Inr (replicate (case A of [] \<Rightarrow> 0 | row # _ \<Rightarrow> length row) 0,
                sum_list y / real (length y)))"

definition toy :: "nat extern" where
  "toy = \<lparr>rk_seed = (\<lambda>n. n),
          rk_double = (\<lambda>g. (0, Suc g)),
          rk_gauss = (\<lambda>g. (0, Suc g)),
          linear_fit = toy_fit\<rparr>"

text \<open>
  Two constant targets, and estimator objects and a store for concrete runs. The mean
  hypothesis of \<open>tiny_estimator\<close> is the constant \<open>2^-540\<close>, a float.
\<close>

definition constant3 :: "ndarray \<Rightarrow> ndarray" where
  "constant3 x = map (\<lambda>v. 3) x"

definition example_estimator :: "real \<Rightarrow> BiasVariance" where
  "example_estimator b =
     \<lparr>target = constant3, hypothesis_class = Regularized10thModel,
      sample_x = np_arange (- 1) 1 (1 / 100), h_bar = \<lparr>coef = 0, intercept = b\<rparr>\<rparr>"



definition example_world :: "nat world" where
  "example_world = \<lparr>ndarrays = [replicate 11 0], np_random = 7\<rparr>"

section \<open>Facts about the hypothesis spaces\<close>

lemma train10_fitted10:
  "train10 L trainer X y w =
     (case fitted10 L trainer X y of
        Inl e \<Rightarrow> Inl e
      | Inr p \<Rightarrow> Inr (length (ndarrays w), w\<lparr>ndarrays := ndarrays w @ [p]\<rparr>))"
  by (auto simp: train10_def fitted10_def alloc_def setitem_def deref_def overwrite_def
      split: sum.splits prod.splits)

lemma train_fitted:
  "train L hc X y w =
     (case fitted L hc X y of
        Inl e \<Rightarrow> Inl e
      | Inr p \<Rightarrow> Inr (length (ndarrays w), w\<lparr>ndarrays := ndarrays w @ [p]\<rparr>))"
  by (cases hc) (simp_all add: train10_fitted10)

lemma fit_transform_rows:
  "fit_transform d x = Inr A \<Longrightarrow> A \<noteq> [] \<and> length A = length x \<and> list_all (\<lambda>row. length row = Suc d) A"
  by (auto simp: fit_transform_def list_all_iff split: if_splits)

lemma fitted10_length:
  assumes "solver_shape L" and "fitted10 L trainer X y = Inr p"
  shows "length p = 11"
proof -
  from assms(2) obtain A c b where A: "fit_transform 10 X = Inr A"
    and f: "linear_fit L trainer A y = Inr (c, b)" and p: "p = c[0 := b]"
    by (auto simp: fitted10_def reshape_column_def split: sum.splits prod.splits if_splits)
  from fit_transform_rows[OF A] obtain row rest where "A = row # rest" and "length row = 11"
    by (cases A) auto
  from assms(1) f have "length c = (case A of [] \<Rightarrow> 0 | r # _ \<Rightarrow> length r)"
    unfolding solver_shape_def by blast
  with \<open>A = row # rest\<close> \<open>length row = 11\<close> p show ?thesis by simp
qed

lemma fitted_length:
  "solver_shape L \<Longrightarrow> fitted L hc X y = Inr p \<Longrightarrow> length p = 11"
  by (cases hc) (auto dest: fitted10_length)

lemma assign_deref:
  assumes "hc \<noteq> HypothesisSpace" and "deref params w = Inr a"
  shows "assign hc params w =
     (if a = [] then Inl IndexError
      else Inr (\<lparr>coef = params, intercept = a ! 0\<rparr>, w\<lparr>ndarrays := (ndarrays w)[params := a[0 := 0]]\<rparr>))"
proof -
  have "assign hc params w = assign10 params w"
    using assms(1) by (cases hc) simp_all
  then show ?thesis
    using assms(2)
    by (auto simp: assign10_def getitem_def setitem_def deref_def overwrite_def split: if_splits)
qed

lemma call_bound_predict:
  "deref (coef h) w = Inr c \<Longrightarrow> call h x w = bound_predict c (intercept h) x"
  by (simp add: call_def bound_predict_def split: sum.splits)

lemma np_dot_length: "np_dot A c = Inr v \<Longrightarrow> length v = length A"
  by (auto simp: np_dot_def split: if_splits)

lemma fit_transform_10:
  "fit_transform 10 (reshape_column X) = (if X = [] then Inl ValueError else Inr (powers10 X))"
  by (simp add: fit_transform_def reshape_column_def powers10_def)

lemma power_in_range:
  assumes "\<bar>v\<bar> \<le> 2 ^ 102" and "k < 11"
  shows "\<not> overflows ((v::real) ^ k)"
proof -
  let ?m = "max 1 \<bar>v\<bar>"
  have "\<bar>v\<bar> ^ k \<le> ?m ^ k" by (rule power_mono) simp_all
  also have "\<dots> \<le> ?m ^ 10" using assms(2) by (intro power_increasing) simp_all
  also have "\<dots> \<le> (2 ^ 102) ^ 10" using assms(1) by (intro power_mono) simp_all
  also have "\<dots> < (2::real) ^ 1024" by simp
  finally show ?thesis by (simp add: overflows_def power_abs)
qed

lemma powers10_in_range:
  assumes "\<forall>v\<in>set x. \<bar>v\<bar> \<le> 2 ^ 102"
  shows "\<not> list_ex (list_ex overflows) (powers10 x)"
  using assms by (auto simp: powers10_def list_ex_iff power_in_range)

lemma powers10_overflow:
  assumes "v \<in> set x" and "2 ^ 103 \<le> \<bar>v\<bar>"
  shows "list_ex (list_ex overflows) (powers10 x)"
proof -
  have "(2::real) ^ 1024 \<le> (2 ^ 103) ^ 10" by simp
  also have "\<dots> \<le> \<bar>v\<bar> ^ 10" using assms(2) by (intro power_mono) simp_all
  finally have "overflows (v ^ 10)" by (simp add: overflows_def power_abs)
  moreover have "v ^ 10 \<in> set (map (\<lambda>k. v ^ k) [0..<11])" by simp
  ultimately have "list_ex overflows (map (\<lambda>k. v ^ k) [0..<11])"
    unfolding list_ex_iff by blast
  moreover from assms(1) have "map (\<lambda>k. v ^ k) [0..<11] \<in> set (powers10 x)"
    unfolding powers10_def by (rule imageI[of v "set x" "\<lambda>v. map (\<lambda>k. v ^ k) [0..<11]", folded set_map])
  ultimately show ?thesis
    unfolding list_ex_iff by blast
qed

lemma bound_predict_powers10:
  "bound_predict c b x =
     (if x = [] \<or> list_ex (list_ex overflows) (powers10 x) then Inl ValueError
      else case np_dot (powers10 x) c of
             Inl e \<Rightarrow> Inl e
           | Inr v \<Rightarrow> Inr (map (\<lambda>t. t + b) v))"
  by (simp add: bound_predict_def fit_transform_10 predict_def powers10_def)

lemma bound_predict_11:
  assumes "length c = 11" and "x \<noteq> []" and "\<forall>v\<in>set x. \<bar>v\<bar> \<le> 2 ^ 102"
  shows "bound_predict c b x =
     Inr (map (\<lambda>v. sum_list (map2 (*) (map (\<lambda>k. v ^ k) [0..<11]) c) + b) x)"
  using assms(1,2) powers10_in_range[OF assms(3)]
  by (simp add: bound_predict_powers10) (simp add: powers10_def np_dot_def list_all_iff comp_def)

lemma bound_predict_mismatch:
  assumes "length c \<noteq> 11" and "x \<noteq> []"
  shows "bound_predict c b x = Inl ValueError"
  using assms
  by (cases x) (auto simp add: bound_predict_powers10 powers10_def np_dot_def)

lemma bound_predict_overflow:
  assumes "v \<in> set x" and "2 ^ 103 \<le> \<bar>v\<bar>"
  shows "bound_predict c b x = Inl ValueError"
  using powers10_overflow[OF assms] by (simp add: bound_predict_powers10)

lemma bound_predict_length: "bound_predict c b x = Inr out \<Longrightarrow> length out = length x"
  by (auto simp: bound_predict_powers10 powers10_def split: if_splits sum.splits
      dest!: np_dot_length)

lemma toy_shape: "solver_shape toy"
  by (auto simp: solver_shape_def toy_def toy_fit_def split: if_splits)


lemma sum_list_map2_nth:
  "length xs = length ys \<Longrightarrow> sum_list (map2 (*) xs ys) = (\<Sum>k<length xs. xs ! k * (ys ! k :: real))"
proof (induction xs ys rule: list_induct2)
  case Nil
  then show ?case by simp
next
  case (Cons x xs y ys)
  have "(\<Sum>k<Suc (length xs). (x # xs) ! k * (y # ys) ! k) =
        x * y + (\<Sum>k<length xs. xs ! k * ys ! k)"
    by (simp add: sum.lessThan_Suc_shift del: sum.lessThan_Suc)
  with Cons show ?case by simp
qed


section \<open>The variance pass on values\<close>

declare variance_loop.simps [simp del] estimate_loop.simps [simp del]
declare spec_trial_variances.simps [simp del]

lemma draws_length: "draws d n g = (vs, g1) \<Longrightarrow> length vs = n"
  by (induction n arbitrary: g vs g1) (auto split: prod.splits)

lemma spec_features_length: "spec_features L g = (X, g1) \<Longrightarrow> length X = 200"
  by (auto simp: spec_features_def split: prod.splits dest: draws_length)

lemma random_uniform_spec:
  "random_uniform L (- 1) 1 200 w =
     (fst (spec_features L (np_random w)), w\<lparr>np_random := snd (spec_features L (np_random w))\<rparr>)"
  by (simp add: random_uniform_def spec_features_def algebra_simps split: prod.splits)

lemma random_normal_spec:
  "random_normal L 2 200 w =
     (fst (spec_noise L (np_random w)), w\<lparr>np_random := snd (spec_noise L (np_random w))\<rparr>)"
  by (simp add: random_normal_def spec_noise_def split: prod.splits)

lemma fitted_nonempty: "fitted L hc X y = Inr p \<Longrightarrow> p \<noteq> []"
  by (cases hc) (auto simp: fitted10_def split: sum.splits prod.splits if_splits)

lemma fitted_not_base: "fitted L hc X y = Inr p \<Longrightarrow> hc \<noteq> HypothesisSpace"
  by (cases hc) auto

lemma np_subtract_same_length:
  "length a = length b \<Longrightarrow> np_subtract a b = Inr (map2 (-) a b)"
  by (simp add: np_subtract_def np_binop_def)

lemma sum_list_map2_index:
  "length a = length b \<Longrightarrow> sum_list (map2 f a b) = (\<Sum>i<length a. (f (a ! i) (b ! i) :: real))"
proof (induction a b rule: list_induct2)
  case Nil
  then show ?case by simp
next
  case (Cons x xs y ys)
  have "(\<Sum>i<Suc (length xs). f ((x # xs) ! i) ((y # ys) ! i)) =
        f x y + (\<Sum>i<length xs. f (xs ! i) (ys ! i))"
    by (simp add: sum.lessThan_Suc_shift del: sum.lessThan_Suc)
  with Cons show ?case by simp
qed

lemma mean_square_same_length:
  assumes "length a = length b" and "a \<noteq> []"
  shows "np_mean (np_square (map2 (-) a b)) = Inr (mean_squared_difference a b)"
proof -
  let ?sq = "\<lambda>u v. underflow ((u - v) ^ 2)"
  from assms(1) have "np_square (map2 (-) a b) = map2 ?sq a b"
    by (induction a b rule: list_induct2) (simp_all add: np_square_def)
  moreover from assms have "map2 ?sq a b \<noteq> []"
    by (cases a; cases b) simp_all
  moreover have "length (map2 ?sq a b) = length a"
    using assms(1) by simp
  ultimately show ?thesis
    using assms(1) sum_list_map2_index[OF assms(1), of ?sq]
    by (simp only: np_mean_def mean_squared_difference_def if_False)
qed

lemma variance_loop_Suc:
  assumes hm: "coef (h_bar self) < length (ndarrays w)"
  shows "variance_loop L self (Suc n) acc w =
     (case spec_dataset L (target self) (np_random w) of
        (Inl e, g2) \<Rightarrow> Inl e
      | (Inr (X, y), g2) \<Rightarrow>
          (case fitted L (hypothesis_class self) X y of
             Inl e \<Rightarrow> Inl e
           | Inr p \<Rightarrow>
               (case spec_bind p X of
                  Inl e \<Rightarrow> Inl e
                | Inr tx \<Rightarrow>
                    (case bound_predict (ndarrays w ! coef (h_bar self)) (intercept (h_bar self)) X of
                       Inl e \<Rightarrow> Inl e
                     | Inr hx \<Rightarrow>
                         variance_loop L self n (acc @ [mean_squared_difference tx hx])
                           (w\<lparr>ndarrays := ndarrays w @ [p[0 := 0]], np_random := g2\<rparr>)))))"
proof (cases "spec_dataset L (target self) (np_random w)")
  case (Pair r g2)
  obtain X g1 where f: "spec_features L (np_random w) = (X, g1)" by fastforce
  obtain noise g2' where n: "spec_noise L g1 = (noise, g2')" by fastforce
  from Pair f n have g2: "g2' = g2"
    by (auto simp: spec_dataset_def split: sum.splits)
  have lenX: "length X = 200" using spec_features_length[OF f] .
  show ?thesis
  proof (cases "np_add (target self X) noise")
    case (Inl e)
    with Pair f n have "r = Inl e" by (auto simp: spec_dataset_def)
    with Pair Inl f n show ?thesis
      by (simp add: variance_loop.simps random_uniform_spec random_normal_spec)
  next
    case (Inr y)
    with Pair f n have r: "r = Inr (X, y)" by (auto simp: spec_dataset_def)
    let ?w2 = "w\<lparr>np_random := g2\<rparr>"
    show ?thesis
    proof (cases "fitted L (hypothesis_class self) X y")
      case (Inl e)
      with Pair r Inr f n g2 show ?thesis
        by (simp add: variance_loop.simps random_uniform_spec random_normal_spec train_fitted)
    next
      case p: (Inr p)
      let ?q = "length (ndarrays w)"
      let ?w3 = "w\<lparr>ndarrays := ndarrays w @ [p], np_random := g2\<rparr>"
      let ?w4 = "w\<lparr>ndarrays := ndarrays w @ [p[0 := 0]], np_random := g2\<rparr>"
      let ?h = "\<lparr>coef = ?q, intercept = p ! 0\<rparr>"
      have tr: "train L (hypothesis_class self) X y ?w2 = Inr (?q, ?w3)"
        using p by (simp add: train_fitted)
      have dq: "deref ?q ?w3 = Inr p" by (simp add: deref_def)
      have asg: "assign (hypothesis_class self) ?q ?w3 = Inr (?h, ?w4)"
        using fitted_nonempty[OF p] by (simp add: assign_deref[OF fitted_not_base[OF p] dq])
      have c1: "call ?h X ?w4 = spec_bind p X"
        by (simp add: call_def bound_predict_def spec_bind_def deref_def split: sum.splits)
      have c2: "call (h_bar self) X ?w4 =
          bound_predict (ndarrays w ! coef (h_bar self)) (intercept (h_bar self)) X"
        using hm by (simp add: call_def bound_predict_def deref_def nth_append split: sum.splits)
      have step: "variance_loop L self (Suc n) acc w =
          (case spec_bind p X of
             Inl e \<Rightarrow> Inl e
           | Inr tx \<Rightarrow>
               (case bound_predict (ndarrays w ! coef (h_bar self)) (intercept (h_bar self)) X of
                  Inl e \<Rightarrow> Inl e
                | Inr hx \<Rightarrow>
                    (case np_subtract tx hx of
                       Inl e \<Rightarrow> Inl e
                     | Inr d \<Rightarrow>
                         (case np_mean (np_square d) of
                            Inl e \<Rightarrow> Inl e
                          | Inr var \<Rightarrow> variance_loop L self n (acc @ [var]) ?w4))))"
        using f n g2 Inr tr asg c1 c2
        by (simp add: variance_loop.simps random_uniform_spec random_normal_spec
            cong: sum.case_cong)
      show ?thesis
      proof (cases "spec_bind p X")
        case (Inl e)
        with Pair r p step show ?thesis by simp
      next
        case tx: (Inr tx)
        then have ltx: "length tx = 200"
          using lenX by (auto simp: spec_bind_def dest: bound_predict_length)
        show ?thesis
        proof (cases "bound_predict (ndarrays w ! coef (h_bar self)) (intercept (h_bar self)) X")
          case (Inl e)
          with Pair r p tx step show ?thesis by simp
        next
          case hx: (Inr hx)
          then have lhx: "length hx = 200"
            using lenX by (auto dest: bound_predict_length)
          from ltx have "tx \<noteq> []" by auto
          with ltx lhx have "np_subtract tx hx = Inr (map2 (-) tx hx)"
            and "np_mean (np_square (map2 (-) tx hx)) = Inr (mean_squared_difference tx hx)"
            by (simp_all add: np_subtract_same_length mean_square_same_length)
          with Pair r p tx hx step show ?thesis by simp
        qed
      qed
    qed
  qed
qed


lemma variance_loop_spec:
  assumes "coef (h_bar self) < length (ndarrays w)"
  shows "case spec_trial_variances L (target self) (hypothesis_class self)
                (bound_predict (ndarrays w ! coef (h_bar self)) (intercept (h_bar self)))
                n (np_random w) of
           Inl e \<Rightarrow> variance_loop L self n acc w = Inl e
         | Inr (vs, g) \<Rightarrow>
             (\<exists>w'. variance_loop L self n acc w = Inr (acc @ vs, w') \<and> np_random w' = g
                \<and> take (length (ndarrays w)) (ndarrays w') = ndarrays w)"
  using assms
proof (induction n arbitrary: acc w)
  case 0
  then show ?case
    by (simp add: spec_trial_variances.simps variance_loop.simps)
next
  case (Suc n)
  let ?f = "target self" and ?hc = "hypothesis_class self"
  let ?m = "bound_predict (ndarrays w ! coef (h_bar self)) (intercept (h_bar self))"
  note step = variance_loop_Suc[OF Suc.prems, of L n acc]
  obtain r g2 where d: "spec_dataset L ?f (np_random w) = (r, g2)" by fastforce
  show ?case
  proof (cases r)
    case (Inl e)
    with d show ?thesis
      by (simp add: step spec_trial_variances.simps)
  next
    case (Inr Xy)
    obtain X y where Xy: "Xy = (X, y)" by (cases Xy)
    show ?thesis
    proof (cases "fitted L ?hc X y")
      case (Inl e)
      with d Inr Xy show ?thesis
        by (simp add: step spec_trial_variances.simps)
    next
      case p: (Inr p)
      show ?thesis
      proof (cases "spec_bind p X")
        case (Inl e)
        with d Inr Xy p show ?thesis
          by (simp add: step spec_trial_variances.simps)
      next
        case tx: (Inr tx)
        show ?thesis
        proof (cases "?m X")
          case (Inl e)
          with d Inr Xy p tx show ?thesis
            by (simp add: step spec_trial_variances.simps)
        next
          case hx: (Inr hx)
          let ?w4 = "w\<lparr>ndarrays := ndarrays w @ [p[0 := 0]], np_random := g2\<rparr>"
          let ?v = "mean_squared_difference tx hx"
          have hm4: "coef (h_bar self) < length (ndarrays ?w4)"
            using Suc.prems by simp
          have same: "ndarrays ?w4 ! coef (h_bar self) = ndarrays w ! coef (h_bar self)"
            using Suc.prems by (simp add: nth_append)
          have loop: "variance_loop L self (Suc n) acc w = variance_loop L self n (acc @ [?v]) ?w4"
            using d Inr Xy p tx hx by (simp add: step)
          note IH = Suc.IH[OF hm4, of "acc @ [?v]", unfolded same]
          show ?thesis
          proof (cases "spec_trial_variances L ?f ?hc ?m n g2")
            case (Inl e)
            with IH d Inr Xy p tx hx loop show ?thesis
              by (simp add: spec_trial_variances.simps)
          next
            case rest: (Inr vg)
            obtain vs g3 where vg: "vg = (vs, g3)" by (cases vg)
            from IH rest vg obtain w' where
              l: "variance_loop L self n (acc @ [?v]) ?w4 = Inr ((acc @ [?v]) @ vs, w')"
              and g: "np_random w' = g3"
              and t: "take (Suc (length (ndarrays w))) (ndarrays w') = ndarrays w @ [p[0 := 0]]"
              by auto
            have "take (length (ndarrays w)) (take (Suc (length (ndarrays w))) (ndarrays w')) =
                  ndarrays w"
              unfolding t by simp
            then have "take (length (ndarrays w)) (ndarrays w') = ndarrays w"
              by (simp add: min_def)
            with l g loop d Inr Xy p tx hx rest vg show ?thesis
              by (simp add: spec_trial_variances.simps)
          qed
        qed
      qed
    qed
  qed
qed

lemma spec_trial_variances_length:
  "spec_trial_variances L f hc m n g = Inr (vs, g') \<Longrightarrow> length vs = n"
proof (induction n arbitrary: g vs)
  case 0
  then show ?case by (simp add: spec_trial_variances.simps)
next
  case (Suc n)
  from Suc.prems obtain v vs' g2 where "vs = v # vs'"
    and "spec_trial_variances L f hc m n g2 = Inr (vs', g')"
    by (auto simp: spec_trial_variances.simps split: prod.splits sum.splits)
  with Suc.IH show ?case by auto
qed

lemma deref_random_seed [simp]: "deref r (random_seed L n w) = deref r w"
  by (simp add: deref_def random_seed_def)

lemma variance_spec:
  assumes "deref (coef (h_bar self)) w = Inr c"
  shows "case spec_variance L (target self) (hypothesis_class self)
                (bound_predict c (intercept (h_bar self))) of
           Inl e \<Rightarrow> variance L self w = Inl e
         | Inr v \<Rightarrow> (\<exists>w'. variance L self w = Inr (v, w')
                        \<and> take (length (ndarrays w)) (ndarrays w') = ndarrays w)"
proof -
  let ?w0 = "random_seed L 1 w"
  from assms have hm: "coef (h_bar self) < length (ndarrays ?w0)"
    and c: "ndarrays ?w0 ! coef (h_bar self) = c"
    by (auto simp: deref_def random_seed_def split: if_splits)
  note l = variance_loop_spec[OF hm, of L 1000 "[]", unfolded c]
  have g: "np_random ?w0 = rk_seed L 1" by (simp add: random_seed_def)
  have n: "ndarrays ?w0 = ndarrays w" by (simp add: random_seed_def)
  show ?thesis
  proof (cases "spec_trial_variances L (target self) (hypothesis_class self)
                  (bound_predict c (intercept (h_bar self))) 1000 (rk_seed L 1)")
    case (Inl e)
    with l g show ?thesis
      by (simp add: spec_variance_def variance_def)
  next
    case (Inr vg)
    obtain vs g' where vg: "vg = (vs, g')" by (cases vg)
    from spec_trial_variances_length Inr vg have len: "length vs = 1000" by fastforce
    then have "vs \<noteq> []" by auto
    with len have m: "np_mean vs = Inr (sum_list vs / 1000)"
      by (simp add: np_mean_def)
    from l g n Inr vg obtain w' where "variance_loop L self 1000 [] ?w0 = Inr (vs, w')"
      and "take (length (ndarrays w)) (ndarrays w') = ndarrays w"
      by auto
    with m Inr vg show ?thesis
      by (simp add: spec_variance_def variance_def)
  qed
qed

lemma variance_keeps_store:
  assumes "deref r w = Inr c" and "deref (coef (h_bar self)) w = Inr c'"
    and "variance L self w = Inr (v, w')"
  shows "deref r w' = Inr c"
proof -
  from variance_spec[OF assms(2), of L] assms(3)
  have t: "take (length (ndarrays w)) (ndarrays w') = ndarrays w"
    by (auto split: sum.splits)
  from assms(1) have r: "r < length (ndarrays w)" and c: "ndarrays w ! r = c"
    by (auto simp: deref_def split: if_splits)
  from r t have "r < length (ndarrays w')"
    by (metis length_take min_less_iff_conj)
  moreover from r t have "ndarrays w' ! r = ndarrays w ! r"
    by (metis nth_take)
  ultimately show ?thesis using c by (simp add: deref_def)
qed

lemma variance_values:
  assumes "deref (coef (h_bar self)) w = Inr c"
  shows "map_sum id fst (variance L self w) =
           spec_variance L (target self) (hypothesis_class self)
             (bound_predict c (intercept (h_bar self)))"
  using variance_spec[OF assms, of L]
  by (auto split: sum.splits)


section \<open>The mean-hypothesis pass on values\<close>

declare accumulate_fits.simps [simp del]

lemma estimate_loop_Suc:
  "estimate_loop L f hc (Suc n) acc w =
     (case spec_dataset L f (np_random w) of
        (Inl e, g2) \<Rightarrow> Inl e
      | (Inr (X, y), g2) \<Rightarrow>
          (case fitted L hc X y of
             Inl e \<Rightarrow> Inl e
           | Inr p \<Rightarrow>
               (case acc of
                  None \<Rightarrow>
                    estimate_loop L f hc n (Some (length (ndarrays w)))
                      (w\<lparr>ndarrays := ndarrays w @ [p], np_random := g2\<rparr>)
                | Some m \<Rightarrow>
                    (case iadd m (length (ndarrays w))
                            (w\<lparr>ndarrays := ndarrays w @ [p], np_random := g2\<rparr>) of
                       Inl e \<Rightarrow> Inl e
                     | Inr w4 \<Rightarrow> estimate_loop L f hc n (Some m) w4))))"
proof -
  obtain X g1 where f: "spec_features L (np_random w) = (X, g1)" by fastforce
  obtain noise g2 where n: "spec_noise L g1 = (noise, g2)" by fastforce
  show ?thesis
  proof (cases "np_add (f X) noise")
    case (Inl e)
    with f n show ?thesis
      by (simp add: estimate_loop.simps random_uniform_spec random_normal_spec spec_dataset_def)
  next
    case (Inr y)
    have w3: "w\<lparr>np_random := g2, ndarrays := ndarrays w @ [p]\<rparr> =
              w\<lparr>ndarrays := ndarrays w @ [p], np_random := g2\<rparr>" for p
      by simp
    show ?thesis
    proof (cases "fitted L hc X y")
      case (Inl e)
      with Inr f n show ?thesis
        by (simp add: estimate_loop.simps random_uniform_spec random_normal_spec spec_dataset_def
            train_fitted)
    next
      case p: (Inr p)
      show ?thesis
      proof (cases acc)
        case None
        with p Inr f n show ?thesis
          by (simp add: estimate_loop.simps random_uniform_spec random_normal_spec
              spec_dataset_def train_fitted w3)
      next
        case (Some m)
        with p Inr f n show ?thesis
          by (simp add: estimate_loop.simps random_uniform_spec random_normal_spec
              spec_dataset_def train_fitted w3)
      qed
    qed
  qed
qed

lemma iadd_fresh:
  assumes "m < length (ndarrays w)"
  shows "iadd m (length (ndarrays w)) (w\<lparr>ndarrays := ndarrays w @ [p], np_random := g\<rparr>) =
     (case add_into (ndarrays w ! m) p of
        Inl e \<Rightarrow> Inl e
      | Inr a \<Rightarrow> Inr (w\<lparr>ndarrays := (ndarrays w)[m := a] @ [p], np_random := g\<rparr>))"
  using assms
  by (simp add: iadd_def deref_def overwrite_def nth_append list_update_append split: sum.splits)

lemma add_into_length: "add_into a b = Inr c \<Longrightarrow> length c = length a"
  by (auto simp: add_into_def split: if_splits)

lemma estimate_loop_Some:
  assumes "m < length (ndarrays w)"
  shows "case accumulate_fits L f hc n (Some (ndarrays w ! m)) (np_random w) of
           Inl e \<Rightarrow> estimate_loop L f hc n (Some m) w = Inl e
         | Inr (acc, g) \<Rightarrow>
             (\<exists>w' a. acc = Some a \<and> length a = length (ndarrays w ! m)
                \<and> estimate_loop L f hc n (Some m) w = Inr (Some m, w')
                \<and> np_random w' = g \<and> m < length (ndarrays w') \<and> ndarrays w' ! m = a)"
  using assms
proof (induction n arbitrary: w)
  case 0
  then show ?case
    by (simp add: accumulate_fits.simps estimate_loop.simps)
next
  case (Suc n)
  note step = estimate_loop_Suc[of L f hc n "Some m" w]
  obtain r g2 where d: "spec_dataset L f (np_random w) = (r, g2)" by fastforce
  show ?case
  proof (cases r)
    case (Inl e)
    with d show ?thesis by (simp add: step accumulate_fits.simps)
  next
    case (Inr Xy)
    obtain X y where Xy: "Xy = (X, y)" by (cases Xy)
    show ?thesis
    proof (cases "fitted L hc X y")
      case (Inl e)
      with d Inr Xy show ?thesis by (simp add: step accumulate_fits.simps)
    next
      case p: (Inr p)
      show ?thesis
      proof (cases "add_into (ndarrays w ! m) p")
        case (Inl e)
        with d Inr Xy p show ?thesis
          by (simp add: step accumulate_fits.simps iadd_fresh[OF Suc.prems])
      next
        case a: (Inr a)
        let ?w4 = "w\<lparr>ndarrays := (ndarrays w)[m := a] @ [p], np_random := g2\<rparr>"
        have m4: "m < length (ndarrays ?w4)" using Suc.prems by simp
        have c4: "ndarrays ?w4 ! m = a" using Suc.prems by (simp add: nth_append)
        have la: "length a = length (ndarrays w ! m)" using add_into_length[OF a] .
        have loop: "estimate_loop L f hc (Suc n) (Some m) w = estimate_loop L f hc n (Some m) ?w4"
          using d Inr Xy p a by (simp add: step iadd_fresh[OF Suc.prems])
        have acc: "accumulate_fits L f hc (Suc n) (Some (ndarrays w ! m)) (np_random w) =
                   accumulate_fits L f hc n (Some a) g2"
          using d Inr Xy p a by (simp add: accumulate_fits.simps)
        from Suc.IH[OF m4, unfolded c4] la show ?thesis
          unfolding loop acc by (auto split: sum.splits prod.splits)
      qed
    qed
  qed
qed

lemma estimate_loop_None:
  "case accumulate_fits L f hc (Suc n) None (np_random w) of
     Inl e \<Rightarrow> estimate_loop L f hc (Suc n) None w = Inl e
   | Inr (acc, g) \<Rightarrow>
       (\<exists>w' a. acc = Some a \<and> a \<noteq> [] \<and> hc \<noteq> HypothesisSpace
          \<and> estimate_loop L f hc (Suc n) None w = Inr (Some (length (ndarrays w)), w')
          \<and> np_random w' = g \<and> length (ndarrays w) < length (ndarrays w')
          \<and> ndarrays w' ! length (ndarrays w) = a)"
proof -
  note step = estimate_loop_Suc[of L f hc n None w]
  obtain r g2 where d: "spec_dataset L f (np_random w) = (r, g2)" by fastforce
  show ?thesis
  proof (cases r)
    case (Inl e)
    with d show ?thesis by (simp add: step accumulate_fits.simps)
  next
    case (Inr Xy)
    obtain X y where Xy: "Xy = (X, y)" by (cases Xy)
    show ?thesis
    proof (cases "fitted L hc X y")
      case (Inl e)
      with d Inr Xy show ?thesis by (simp add: step accumulate_fits.simps)
    next
      case p: (Inr p)
      let ?q = "length (ndarrays w)"
      let ?w3 = "w\<lparr>ndarrays := ndarrays w @ [p], np_random := g2\<rparr>"
      have q: "?q < length (ndarrays ?w3)" by simp
      have c: "ndarrays ?w3 ! ?q = p" by simp
      have loop: "estimate_loop L f hc (Suc n) None w = estimate_loop L f hc n (Some ?q) ?w3"
        using d Inr Xy p by (simp add: step)
      have acc: "accumulate_fits L f hc (Suc n) None (np_random w) =
                 accumulate_fits L f hc n (Some p) g2"
        using d Inr Xy p by (simp add: accumulate_fits.simps)
      from estimate_loop_Some[OF q, of L f hc n, unfolded c] fitted_nonempty[OF p]
        fitted_not_base[OF p]
      show ?thesis
        unfolding loop acc by (auto split: sum.splits prod.splits)
    qed
  qed
qed


lemma estimate_h_bar_values:
  "case mean_hypothesis_values L f hc of
     Inl e \<Rightarrow> estimate_h_bar L f hc w = Inl e
   | Inr (b, c) \<Rightarrow>
       (\<exists>h w'. estimate_h_bar L f hc w = Inr (h, w') \<and> intercept h = b
          \<and> deref (coef h) w' = Inr c)"
proof -
  let ?w0 = "random_seed L 1 w"
  have g: "np_random ?w0 = rk_seed L 1" by (simp add: random_seed_def)
  have k: "(1000::nat) = Suc 999" by simp
  note l = estimate_loop_None[of L f hc 999 ?w0, folded k, unfolded g]
  show ?thesis
  proof (cases "accumulate_fits L f hc 1000 None (rk_seed L 1)")
    case (Inl e)
    with l show ?thesis
      by (simp add: mean_hypothesis_values_def estimate_h_bar_def)
  next
    case (Inr ag)
    obtain acc g' where ag: "ag = (acc, g')" by (cases ag)
    from l Inr ag obtain w' a where acc: "acc = Some a" and a: "a \<noteq> []"
      and hc: "hc \<noteq> HypothesisSpace"
      and loop: "estimate_loop L f hc 1000 None ?w0 = Inr (Some (length (ndarrays ?w0)), w')"
      and q: "length (ndarrays ?w0) < length (ndarrays w')"
      and c: "ndarrays w' ! length (ndarrays ?w0) = a"
      by auto
    let ?q = "length (ndarrays ?w0)"
    let ?m = "map (\<lambda>x. x / 1000) a"
    let ?w2 = "overwrite ?q ?m w'"
    have d: "itruediv ?q 1000 w' = Inr ?w2"
      using q c by (simp add: itruediv_def deref_def)
    have d2: "deref ?q ?w2 = Inr ?m"
      using q by (simp add: deref_def overwrite_def)
    have m: "?m \<noteq> []" using a by simp
    let ?h = "\<lparr>coef = ?q, intercept = ?m ! 0\<rparr>"
    let ?w3 = "?w2\<lparr>ndarrays := (ndarrays ?w2)[?q := ?m[0 := 0]]\<rparr>"
    have asg: "assign hc ?q ?w2 = Inr (?h, ?w3)"
      using m by (simp only: assign_deref[OF hc d2] if_False)
    have d3: "deref (coef ?h) ?w3 = Inr (?m[0 := 0])"
      using q by (simp add: deref_def overwrite_def)
    have "estimate_h_bar L f hc w = Inr (?h, ?w3)"
      using loop d asg by (simp add: estimate_h_bar_def)
    with d3 Inr ag acc show ?thesis
      by (simp add: mean_hypothesis_values_def)
  qed
qed

lemma BiasVariance_init_values:
  "case mean_hypothesis_values L f hc of
     Inl e \<Rightarrow> BiasVariance_init L f hc w = Inl e
   | Inr (b, c) \<Rightarrow>
       (\<exists>self w'. BiasVariance_init L f hc w = Inr (self, w') \<and> target self = f
          \<and> hypothesis_class self = hc \<and> sample_x self = np_arange (- 1) 1 (1 / 100)
          \<and> intercept (h_bar self) = b \<and> deref (coef (h_bar self)) w' = Inr c)"
  using estimate_h_bar_values[of L f hc w]
  by (auto simp: BiasVariance_init_def split: sum.splits)

lemma bias2_values:
  "deref (coef (h_bar self)) w = Inr c \<Longrightarrow>
   bias2 self w =
     (case bound_predict c (intercept (h_bar self)) (sample_x self) of
        Inl e \<Rightarrow> Inl e
      | Inr hx \<Rightarrow>
          (case np_subtract hx (target self (sample_x self)) of
             Inl e \<Rightarrow> Inl e
           | Inr d \<Rightarrow> np_mean (np_square d)))"
  by (simp add: bias2_def call_bound_predict)


section \<open>The accumulated vector is the mean of the fitted vectors\<close>

declare spec_fits.simps [simp del]

lemma spec_fits_length: "spec_fits L f hc n g = Inr (ps, g') \<Longrightarrow> length ps = n"
proof (induction n arbitrary: g ps)
  case 0
  then show ?case by (simp add: spec_fits.simps)
next
  case (Suc n)
  from Suc.prems obtain p ps' g2 where "ps = p # ps'" and "spec_fits L f hc n g2 = Inr (ps', g')"
    by (auto simp: spec_fits.simps split: prod.splits sum.splits)
  with Suc.IH show ?case by auto
qed

lemma spec_fits_dimension:
  "solver_shape L \<Longrightarrow> spec_fits L f hc n g = Inr (ps, g') \<Longrightarrow> \<forall>p\<in>set ps. length p = 11"
proof (induction n arbitrary: g ps)
  case 0
  then show ?case by (simp add: spec_fits.simps)
next
  case (Suc n)
  from Suc.prems(2) obtain X y p ps' g2 where "ps = p # ps'" and "fitted L hc X y = Inr p"
    and "spec_fits L f hc n g2 = Inr (ps', g')"
    by (auto simp: spec_fits.simps split: prod.splits sum.splits)
  with Suc.IH[OF Suc.prems(1)] fitted_length[OF Suc.prems(1)] show ?case by auto
qed

lemma add_into_same_length: "length b = length a \<Longrightarrow> add_into a b = Inr (map2 (+) a b)"
  by (simp add: add_into_def)

lemma accumulate_fits_Some:
  assumes "solver_shape L" and "length a = 11"
  shows "accumulate_fits L f hc n (Some a) g =
     (case spec_fits L f hc n g of
        Inl e \<Rightarrow> Inl e
      | Inr (ps, g') \<Rightarrow> Inr (Some (foldl (map2 (+)) a ps), g'))"
  using assms(2)
proof (induction n arbitrary: a g)
  case 0
  then show ?case by (simp add: accumulate_fits.simps spec_fits.simps)
next
  case (Suc n)
  obtain r g2 where d: "spec_dataset L f g = (r, g2)" by fastforce
  show ?case
  proof (cases r)
    case (Inl e)
    with d show ?thesis by (simp add: accumulate_fits.simps spec_fits.simps)
  next
    case (Inr Xy)
    obtain X y where Xy: "Xy = (X, y)" by (cases Xy)
    show ?thesis
    proof (cases "fitted L hc X y")
      case (Inl e)
      with d Inr Xy show ?thesis by (simp add: accumulate_fits.simps spec_fits.simps)
    next
      case p: (Inr p)
      from fitted_length[OF assms(1) p] Suc.prems have l: "length p = length a" by simp
      then have "length (map2 (+) a p) = 11" using Suc.prems by simp
      from Suc.IH[OF this] d Inr Xy p l show ?thesis
        by (simp add: accumulate_fits.simps spec_fits.simps add_into_same_length
            split: sum.splits prod.splits)
    qed
  qed
qed

lemma accumulate_fits_None:
  assumes "solver_shape L"
  shows "accumulate_fits L f hc (Suc n) None g =
     (case spec_fits L f hc (Suc n) g of
        Inl e \<Rightarrow> Inl e
      | Inr (ps, g') \<Rightarrow> Inr (Some (foldl (map2 (+)) (hd ps) (tl ps)), g'))"
proof -
  obtain r g2 where d: "spec_dataset L f g = (r, g2)" by fastforce
  show ?thesis
  proof (cases r)
    case (Inl e)
    with d show ?thesis by (simp add: accumulate_fits.simps spec_fits.simps)
  next
    case (Inr Xy)
    obtain X y where Xy: "Xy = (X, y)" by (cases Xy)
    show ?thesis
    proof (cases "fitted L hc X y")
      case (Inl e)
      with d Inr Xy show ?thesis by (simp add: accumulate_fits.simps spec_fits.simps)
    next
      case p: (Inr p)
      from accumulate_fits_Some[OF assms fitted_length[OF assms p], of f hc n g2] d Inr Xy p
      show ?thesis
        by (simp add: accumulate_fits.simps spec_fits.simps split: sum.splits prod.splits)
    qed
  qed
qed

lemma foldl_add_nth:
  assumes "\<forall>p\<in>set ps. length p = d" and "length a = d"
  shows "foldl (map2 (+)) a ps = map (\<lambda>j. a ! j + sum_list (map (\<lambda>q. q ! j) ps)) [0..<d]"
  using assms
proof (induction ps arbitrary: a)
  case Nil
  then have "map ((!) a) [0..<d] = a"
    using map_nth[of a] by simp
  then show ?case by simp
next
  case (Cons p ps)
  then have lp: "length p = d" by simp
  with Cons.prems have l: "length (map2 (+) a p) = d" by simp
  have "foldl (map2 (+)) (map2 (+) a p) ps =
        map (\<lambda>j. map2 (+) a p ! j + sum_list (map (\<lambda>q. q ! j) ps)) [0..<d]"
    using Cons.IH[OF _ l] Cons.prems(1) by simp
  also have "\<dots> = map (\<lambda>j. a ! j + sum_list (map (\<lambda>q. q ! j) (p # ps))) [0..<d]"
    using lp Cons.prems(2) by (intro map_cong) (auto simp: add.assoc)
  finally show ?case by simp
qed

lemma mean_of_accumulated:
  assumes "\<forall>q\<in>set (p # ps). length q = 11" and "length (p # ps) = 1000"
  shows "map (\<lambda>x. x / 1000) (foldl (map2 (+)) p ps) = mean_vector (p # ps)"
proof -
  from assms(1) have "\<forall>q\<in>set ps. length q = 11" and "length p = 11" by simp_all
  from foldl_add_nth[OF this] assms(2) \<open>length p = 11\<close> show ?thesis
    by (simp add: mean_vector_def comp_def)
qed

lemma mean_hypothesis_values_spec:
  assumes "solver_shape L"
  shows "mean_hypothesis_values L f hc =
           map_sum id (\<lambda>m. (m ! 0, m[0 := 0])) (spec_mean_hypothesis L f hc)"
proof -
  have k: "(1000::nat) = Suc 999" by simp
  note a = accumulate_fits_None[OF assms, of f hc 999 "rk_seed L 1", folded k]
  show ?thesis
  proof (cases "spec_fits L f hc 1000 (rk_seed L 1)")
    case (Inl e)
    with a show ?thesis
      by (simp add: mean_hypothesis_values_def spec_mean_hypothesis_def)
  next
    case (Inr pg)
    obtain ps g where pg: "pg = (ps, g)" by (cases pg)
    from Inr pg have len: "length ps = 1000" by (auto dest: spec_fits_length)
    then obtain p ps' where ps: "ps = p # ps'" by (cases ps) auto
    from spec_fits_dimension[OF assms] Inr pg ps have "\<forall>q\<in>set (p # ps'). length q = 11"
      by fastforce
    from mean_of_accumulated[OF this] len ps
    have "map (\<lambda>x. x / 1000) (foldl (map2 (+)) p ps') = mean_vector ps" by simp
    with a Inr pg ps show ?thesis
      by (simp add: mean_hypothesis_values_def spec_mean_hypothesis_def)
  qed
qed

lemma draws_range:
  assumes "\<And>g v g'. d g = (v, g') \<Longrightarrow> P v"
  shows "draws d n g = (vs, g1) \<Longrightarrow> \<forall>v\<in>set vs. P v"
proof (induction n arbitrary: g vs g1)
  case 0
  then show ?case by simp
next
  case (Suc n)
  then show ?case
    by (auto split: prod.splits dest: assms)
qed

lemma spec_features_range:
  assumes "\<And>g u g'. rk_double L g = (u, g') \<Longrightarrow> 0 \<le> u \<and> u < 1"
    and "spec_features L g = (X, g1)"
  shows "\<forall>x\<in>set X. - 1 \<le> x \<and> x < 1"
proof -
  from assms(2) obtain us where u: "draws (rk_double L) 200 g = (us, g1)"
    and X: "X = map (\<lambda>u. 2 * u - 1) us"
    by (auto simp: spec_features_def split: prod.splits)
  from draws_range[of "rk_double L" "\<lambda>u. 0 \<le> u \<and> u < 1", OF assms(1) u]
  show ?thesis unfolding X by auto
qed

lemma random_normal_scaled:
  "random_normal L 2 200 v = (noise, v1) \<Longrightarrow>
   length noise = 200 \<and> noise = map (\<lambda>z. 2 * z) (fst (draws (rk_gauss L) 200 (np_random v)))"
  by (auto simp: random_normal_def split: prod.splits dest: draws_length)

lemma random_uniform_range:
  assumes "random_uniform L (- 1) 1 200 v = (X, v1)"
  shows "length X = 200"
    and "(\<forall>g. 0 \<le> fst (rk_double L g) \<and> fst (rk_double L g) < 1) \<Longrightarrow> \<forall>x\<in>set X. - 1 \<le> x \<and> x < 1"
proof -
  from assms have X: "spec_features L (np_random v) = (X, np_random v1)"
    by (auto simp: random_uniform_spec)
  show "length X = 200" using spec_features_length[OF X] .
  assume r: "\<forall>g. 0 \<le> fst (rk_double L g) \<and> fst (rk_double L g) < 1"
  have "0 \<le> u \<and> u < 1" if "rk_double L g = (u, g')" for g u g'
    using r[rule_format, of g] that by simp
  from spec_features_range[OF this X] show "\<forall>x\<in>set X. - 1 \<le> x \<and> x < 1" by simp
qed

section \<open>Facts about the squared-bias estimate and signs\<close>

lemma sample_grid: "np_arange (- 1) 1 (1 / 100) = map (\<lambda>i. - 1 + real i / 100) [0..<200]"
  by (simp add: np_arange_def)

lemma sample_grid_range: "\<forall>v\<in>set (np_arange (- 1) 1 (1 / 100)). \<bar>v\<bar> \<le> 2 ^ 102"
proof
  fix v assume "v \<in> set (np_arange (- 1) 1 (1 / 100))"
  then obtain i where "i < 200" and "v = - 1 + real i / 100"
    by (auto simp: sample_grid)
  then have "\<bar>v\<bar> \<le> 1" by (simp add: abs_le_iff)
  also have "\<dots> \<le> (2::real) ^ 102" by simp
  finally show "\<bar>v\<bar> \<le> 2 ^ 102" .
qed

lemma call_length:
  assumes "call h x w = Inr out"
  shows "length out = length x"
proof (cases "deref (coef h) w")
  case (Inl e)
  with assms show ?thesis by (simp add: call_def split: sum.splits)
next
  case (Inr c)
  from assms show ?thesis
    unfolding call_bound_predict[OF Inr] by (rule bound_predict_length)
qed

lemma call_ignores_generator: "call h x (w\<lparr>np_random := g\<rparr>) = call h x w"
proof -
  have "deref r (w\<lparr>np_random := g\<rparr>) = deref r w" for r
    by (simp add: deref_def)
  then show ?thesis
    by (simp add: call_def cong: sum.case_cong)
qed

lemma bias2_same_length:
  assumes "call (h_bar self) (sample_x self) w = Inr hx"
    and "length (target self (sample_x self)) = length (sample_x self)"
  shows "bias2 self w = Inr (mean_squared_difference hx (target self (sample_x self)))"
proof -
  from call_length[OF assms(1)] assms(2)
  have l: "length hx = length (target self (sample_x self))" by simp
  from assms(1) have "sample_x self \<noteq> []"
    by (auto simp: call_def fit_transform_def reshape_column_def split: if_splits)
  with call_length[OF assms(1)] have "hx \<noteq> []" by auto
  with l assms(1) show ?thesis
    by (simp add: bias2_def np_subtract_same_length mean_square_same_length)
qed




lemma mean_squared_difference_underflow:
  assumes "\<forall>i<length a. (a ! i - b ! i) ^ 2 \<le> 1 / 2 ^ 1075"
  shows "mean_squared_difference a b = 0"
proof -
  have "underflow ((a ! i - b ! i) ^ 2) = 0" if "i < length a" for i
    using assms that by (simp add: underflow_def)
  then show ?thesis by (simp add: mean_squared_difference_def)
qed

lemma mean_squared_difference_same: "mean_squared_difference a a = 0"
  by (rule mean_squared_difference_underflow) simp



text \<open>
  A call of \<^verbatim>\<open>variance()\<close> leaves the arrays that exist untouched, so the outputs of
  later calls are those of the first.
\<close>

lemma outputs_repeat:
  assumes "deref (coef (h_bar self)) w = Inr c" and "variance L self w = Inr (v, w')"
  shows "bias2 self w' = bias2 self w
       \<and> map_sum id fst (variance L self w') = map_sum id fst (variance L self w)"
proof -
  from variance_keeps_store[OF assms(1) assms(1) assms(2)]
  have d: "deref (coef (h_bar self)) w' = Inr c" .
  show ?thesis
    by (simp add: bias2_values[OF d] bias2_values[OF assms(1)] variance_values[OF d]
        variance_values[OF assms(1)])
qed

section \<open>The two passes run on the data sets of the specification\<close>

lemma train_generator: "train L hc X y w = Inr (r, w') \<Longrightarrow> np_random w' = np_random w"
  by (auto simp: train_fitted split: sum.splits)

lemma setitem_generator: "setitem r i v w = Inr w' \<Longrightarrow> np_random w' = np_random w"
  by (auto simp: setitem_def overwrite_def split: sum.splits if_splits)

lemma assign_generator: "assign hc r w = Inr (h, w') \<Longrightarrow> np_random w' = np_random w"
  by (cases hc) (auto simp: assign10_def split: sum.splits dest: setitem_generator)

lemma iadd_generator: "iadd r q w = Inr w' \<Longrightarrow> np_random w' = np_random w"
  by (auto simp: iadd_def overwrite_def split: sum.splits)

lemma estimate_trial_generator:
  "estimate_trial L hc Xy acc w = Inr (acc', w') \<Longrightarrow> np_random w' = np_random w"
  by (auto simp: estimate_trial_def split: prod.splits sum.splits option.splits
      dest!: train_generator iadd_generator)

lemma variance_trial_generator:
  "variance_trial L self Xy acc w = Inr (acc', w') \<Longrightarrow> np_random w' = np_random w"
  by (auto simp: variance_trial_def split: prod.splits sum.splits
      dest!: train_generator assign_generator)

lemma generating_lines:
  "random_uniform L (- 1) 1 200 w = (X, w1) \<Longrightarrow> random_normal L 2 200 w1 = (noise, w2) \<Longrightarrow>
   spec_dataset L f (np_random w) =
     (case np_add (f X) noise of Inl e \<Rightarrow> Inl e | Inr y \<Rightarrow> Inr (X, y), np_random w2)
   \<and> w2 = w\<lparr>np_random := np_random w2\<rparr>"
  by (auto simp: random_uniform_spec random_normal_spec spec_dataset_def
      split: prod.splits sum.splits)

lemma estimate_loop_step:
  "estimate_loop L f hc (Suc n) acc w =
     (case spec_dataset L f (np_random w) of
        (Inl e, g) \<Rightarrow> Inl e
      | (Inr Xy, g) \<Rightarrow>
          (case estimate_trial L hc Xy acc (w\<lparr>np_random := g\<rparr>) of
             Inl e \<Rightarrow> Inl e
           | Inr (acc', w') \<Rightarrow> estimate_loop L f hc n acc' w'))"
proof -
  obtain X w1 where u: "random_uniform L (- 1) 1 200 w = (X, w1)" by fastforce
  obtain noise w2 where n: "random_normal L 2 200 w1 = (noise, w2)" by fastforce
  from generating_lines[OF u n, of f]
  have d: "spec_dataset L f (np_random w) =
      (case np_add (f X) noise of Inl e \<Rightarrow> Inl e | Inr y \<Rightarrow> Inr (X, y), np_random w2)"
    and w2: "w\<lparr>np_random := np_random w2\<rparr> = w2"
    by simp_all
  show ?thesis
  proof (cases "np_add (f X) noise")
    case (Inl e)
    with u n d show ?thesis by (simp add: estimate_loop.simps)
  next
    case (Inr y)
    with u n d w2 show ?thesis
      by (simp add: estimate_loop.simps estimate_trial_def
          split: sum.splits prod.splits option.splits)
  qed
qed

lemma variance_loop_step:
  "variance_loop L self (Suc n) acc w =
     (case spec_dataset L (target self) (np_random w) of
        (Inl e, g) \<Rightarrow> Inl e
      | (Inr Xy, g) \<Rightarrow>
          (case variance_trial L self Xy acc (w\<lparr>np_random := g\<rparr>) of
             Inl e \<Rightarrow> Inl e
           | Inr (acc', w') \<Rightarrow> variance_loop L self n acc' w'))"
proof -
  obtain X w1 where u: "random_uniform L (- 1) 1 200 w = (X, w1)" by fastforce
  obtain noise w2 where n: "random_normal L 2 200 w1 = (noise, w2)" by fastforce
  from generating_lines[OF u n, of "target self"]
  have d: "spec_dataset L (target self) (np_random w) =
      (case np_add (target self X) noise of Inl e \<Rightarrow> Inl e | Inr y \<Rightarrow> Inr (X, y),
       np_random w2)"
    and w2: "w\<lparr>np_random := np_random w2\<rparr> = w2"
    by simp_all
  show ?thesis
  proof (cases "np_add (target self X) noise")
    case (Inl e)
    with u n d show ?thesis by (simp add: variance_loop.simps)
  next
    case (Inr y)
    with u n d w2 show ?thesis
      by (simp add: variance_loop.simps variance_trial_def split: sum.splits prod.splits)
  qed
qed

lemma estimate_loop_run_trials:
  "estimate_loop L f hc n acc w =
     run_trials (estimate_trial L hc) (spec_datasets L f n (np_random w)) acc w"
proof (induction n arbitrary: acc w)
  case 0
  then show ?case by (simp add: estimate_loop.simps)
next
  case (Suc n)
  obtain d g where s: "spec_dataset L f (np_random w) = (d, g)" by fastforce
  show ?case
  proof (cases d)
    case (Inl e)
    with s show ?thesis by (simp add: estimate_loop_step)
  next
    case (Inr Xy)
    show ?thesis
    proof (cases "estimate_trial L hc Xy acc (w\<lparr>np_random := g\<rparr>)")
      case (Inl e)
      with s Inr show ?thesis by (simp add: estimate_loop_step)
    next
      case r: (Inr aw)
      obtain acc' w' where aw: "aw = (acc', w')" by (cases aw)
      from estimate_trial_generator r aw have "np_random w' = g" by fastforce
      with Suc.IH[of acc' w'] s Inr r aw show ?thesis
        by (simp add: estimate_loop_step)
    qed
  qed
qed

lemma variance_loop_run_trials:
  "variance_loop L self n acc w =
     run_trials (variance_trial L self) (spec_datasets L (target self) n (np_random w)) acc w"
proof (induction n arbitrary: acc w)
  case 0
  then show ?case by (simp add: variance_loop.simps)
next
  case (Suc n)
  obtain d g where s: "spec_dataset L (target self) (np_random w) = (d, g)" by fastforce
  show ?case
  proof (cases d)
    case (Inl e)
    with s show ?thesis by (simp add: variance_loop_step)
  next
    case (Inr Xy)
    show ?thesis
    proof (cases "variance_trial L self Xy acc (w\<lparr>np_random := g\<rparr>)")
      case (Inl e)
      with s Inr show ?thesis by (simp add: variance_loop_step)
    next
      case r: (Inr aw)
      obtain acc' w' where aw: "aw = (acc', w')" by (cases aw)
      from variance_trial_generator r aw have "np_random w' = g" by fastforce
      with Suc.IH[of acc' w'] s Inr r aw show ?thesis
        by (simp add: variance_loop_step)
    qed
  qed
qed

lemma spec_datasets_length: "length (spec_datasets L f n g) = n"
  by (induction n arbitrary: g) (simp_all split: prod.splits)

section \<open>A concrete run\<close>

lemma toy_draws_double: "draws (rk_double toy) n g = (replicate n 0, g + n)"
  by (induction n arbitrary: g) (simp_all add: toy_def)

lemma toy_draws_gauss: "draws (rk_gauss toy) n g = (replicate n 0, g + n)"
  by (induction n arbitrary: g) (simp_all add: toy_def)

lemma toy_dataset:
  "spec_dataset toy constant3 g = (Inr (replicate 200 (- 1), replicate 200 3), g + 400)"
proof -
  have "map2 (+) (replicate 200 (3::real)) (replicate 200 0) = replicate 200 3"
    by (simp add: list_eq_iff_nth_eq)
  then show ?thesis
    by (simp add: spec_dataset_def spec_features_def spec_noise_def toy_draws_double
        toy_draws_gauss constant3_def np_add_def np_binop_def)
qed

lemma toy_datasets:
  "spec_datasets toy constant3 n g =
     map (\<lambda>i. (Inr (replicate 200 (- 1), replicate 200 3), g + 400 * Suc i)) [0..<n]"
proof (induction n arbitrary: g)
  case 0
  then show ?case by simp
next
  case (Suc n)
  have e: "map (\<lambda>i. (Inr (replicate 200 (- 1 :: real), replicate 200 (3::real)), g + 400 * Suc i))
          [0..<Suc n] =
        (Inr (replicate 200 (- 1), replicate 200 3), g + 400) #
        map (\<lambda>i. (Inr (replicate 200 (- 1), replicate 200 3), (g + 400) + 400 * Suc i)) [0..<n]"
    by (simp add: upt_conv_Cons map_Suc_upt[symmetric] del: upt_Suc)
  have s: "spec_datasets toy constant3 (Suc n) g =
      (Inr (replicate 200 (- 1), replicate 200 3), g + 400) #
      spec_datasets toy constant3 n (g + 400)"
    by (simp add: toy_dataset)
  show ?case
    unfolding s e Suc.IH by (rule refl)
qed

lemma toy_fitted:
  assumes "hc \<noteq> HypothesisSpace"
  shows "fitted toy hc (replicate 200 (- 1)) (replicate 200 3) = Inr (3 # replicate 10 0)"
proof -
  let ?row = "map (\<lambda>k. (- 1 :: real) ^ k) [0..<11]"
  have r: "replicate 11 (0::real) = 0 # replicate 10 0" by (simp add: numeral_eq_Suc)
  have "powers10 (replicate 200 (- 1)) = replicate 200 ?row"
    by (simp add: powers10_def)
  also have "\<dots> = ?row # replicate 199 ?row"
    by (simp add: numeral_eq_Suc)
  finally have p: "powers10 (replicate 200 (- 1)) = ?row # replicate 199 ?row" .
  have "toy_fit est (?row # replicate 199 ?row) (replicate 200 3) = Inr (0 # replicate 10 0, 3)"
    for est
    by (simp add: toy_fit_def r sum_list_replicate)
  then have "fitted10 toy est (replicate 200 (- 1)) (replicate 200 3) = Inr (3 # replicate 10 0)"
    for est
    by (simp add: fitted10_def fit_transform_10 p toy_def)
  then show ?thesis using assms by (cases hc) simp_all
qed

lemma toy_spec_fits:
  assumes "hc \<noteq> HypothesisSpace"
  shows "spec_fits toy constant3 hc n g = Inr (replicate n (3 # replicate 10 0), g + 400 * n)"
  by (induction n arbitrary: g)
    (simp_all add: spec_fits.simps toy_dataset toy_fitted[OF assms] algebra_simps)

lemma toy_mean_vector: "mean_vector (replicate 1000 (3 # replicate 10 0)) = 3 # replicate 10 0"
proof -
  have "replicate 1000 (3 # replicate 10 (0::real)) = (3 # replicate 10 0) # replicate 999 (3 # replicate 10 0)"
    by (simp add: numeral_eq_Suc)
  then have "mean_vector (replicate 1000 (3 # replicate 10 0)) =
     map (\<lambda>j. sum_list (map (\<lambda>q. q ! j) (replicate 1000 (3 # replicate 10 (0::real)))) / 1000) [0..<11]"
    by (simp add: mean_vector_def)
  also have "\<dots> = map (\<lambda>j. (3 # replicate 10 0) ! j) [0..<11]"
    by (intro map_cong) (simp_all add: sum_list_replicate)
  also have "\<dots> = 3 # replicate 10 0"
    using map_nth[of "3 # replicate 10 (0::real)"] by simp
  finally show ?thesis .
qed

lemma toy_seed: "rk_seed toy n = n"
  by (simp add: toy_def)

lemma toy_mean_hypothesis:
  "hc \<noteq> HypothesisSpace \<Longrightarrow> spec_mean_hypothesis toy constant3 hc = Inr (3 # replicate 10 0)"
  by (simp add: spec_mean_hypothesis_def toy_spec_fits toy_seed toy_mean_vector)

lemma constant_predictor:
  assumes "x \<noteq> []" and "\<forall>v\<in>set x. \<bar>v\<bar> \<le> 2 ^ 102"
  shows "bound_predict (replicate 11 0) b x = Inr (replicate (length x) b)"
proof -
  have "sum_list (map2 (*) (map (\<lambda>k. v ^ k) [0..<11]) (replicate 11 0)) = (0::real)" for v
    using sum_list_map2_nth[of "map (\<lambda>k. v ^ k) [0..<11]" "replicate 11 0"] by simp
  then have "bound_predict (replicate 11 0) b x = Inr (map (\<lambda>v. b) x)"
    using assms by (simp add: bound_predict_11)
  then show ?thesis by (simp add: map_replicate_const)
qed

lemma toy_trial_variances_any:
  assumes "hc \<noteq> HypothesisSpace"
  shows "spec_trial_variances toy constant3 hc (bound_predict (replicate 11 0) b) n g =
           Inr (replicate n (underflow ((3 - b) ^ 2)), g + 400 * n)"
proof (induction n arbitrary: g)
  case 0
  then show ?case by (simp add: spec_trial_variances.simps)
next
  case (Suc n)
  have r: "(3 # replicate 10 (0::real))[0 := 0] = replicate 11 0" by (simp add: numeral_eq_Suc)
  have t: "spec_bind (3 # replicate 10 0) (replicate 200 (- 1)) = Inr (replicate 200 3)"
    unfolding spec_bind_def r using constant_predictor[of "replicate 200 (- 1)" 3] by simp
  have m: "bound_predict (replicate 11 0) b (replicate 200 (- 1)) = Inr (replicate 200 b)"
    using constant_predictor[of "replicate 200 (- 1)" b] by simp
  have z: "mean_squared_difference (replicate 200 3) (replicate 200 b) = underflow ((3 - b) ^ 2)"
    by (simp add: mean_squared_difference_def)
  show ?case
    by (simp add: spec_trial_variances.simps toy_dataset toy_fitted[OF assms] t m z Suc.IH
        algebra_simps)
qed

lemma toy_variance_any:
  "hc \<noteq> HypothesisSpace \<Longrightarrow>
   spec_variance toy constant3 hc (bound_predict (replicate 11 0) b) =
     Inr (underflow ((3 - b) ^ 2))"
  by (simp add: spec_variance_def toy_trial_variances_any toy_seed sum_list_replicate)

lemma toy_mean_hypothesis_values:
  "hc \<noteq> HypothesisSpace \<Longrightarrow> mean_hypothesis_values toy constant3 hc = Inr (3, replicate 11 0)"
  by (simp add: mean_hypothesis_values_spec[OF toy_shape] toy_mean_hypothesis numeral_eq_Suc)

lemma example_deref: "deref (coef (h_bar (example_estimator b))) example_world = Inr (replicate 11 0)"
  by (simp add: example_estimator_def example_world_def deref_def)

lemma example_call:
  "call (h_bar (example_estimator b)) (sample_x (example_estimator b)) example_world =
     Inr (replicate 200 b)"
proof -
  have "sample_x (example_estimator b) \<noteq> []" and "length (sample_x (example_estimator b)) = 200"
    by (simp_all add: example_estimator_def sample_grid)
  moreover have "\<forall>v\<in>set (sample_x (example_estimator b)). \<bar>v\<bar> \<le> 2 ^ 102"
    using sample_grid_range by (simp add: example_estimator_def)
  ultimately show ?thesis
    using constant_predictor[of "sample_x (example_estimator b)" b]
    by (simp add: call_bound_predict[OF example_deref]) (simp add: example_estimator_def)
qed

lemma example_target:
  "target (example_estimator b) (sample_x (example_estimator b)) = replicate 200 3"
  by (simp add: example_estimator_def constant3_def sample_grid map_replicate_const)



section \<open>The mean hypothesis\<close>

text \<open>
  C1. With a solver that returns one coefficient per column, \<^verbatim>\<open>_estimate_h_bar\<close>
  fails or returns exactly as the mean-hypothesis estimation of the specification
  does: after reseeding the generator with 1 it runs 1000 trials, each drawing 200
  features and 200 noise values, adding the noise to the target at the features and
  fitting a parameter vector of length 11; the predictor it returns is bound to the
  element-wise mean of the 1000 vectors, the sum divided by 1000: its intercept is
  slot 0 of the mean, its coefficient array the mean with slot 0 set to 0. The
  features that \<^verbatim>\<open>np.random.uniform(-1, 1, 200)\<close> returns are 200 values, in [-1, 1)
  when the generator's elementary draws are in [0, 1); the noise that
  \<^verbatim>\<open>np.random.normal(scale=2, size=200)\<close> returns is 200 standard normal draws, each
  times 2.
\<close>

theorem estimate_h_bar_is_mean_of_fits:
  assumes "solver_shape L"
  shows "map_sum id (\<lambda>(h, w'). (intercept h, deref (coef h) w')) (estimate_h_bar L f hc w) =
           map_sum id (\<lambda>m. (m ! 0, Inr (m[0 := 0]))) (spec_mean_hypothesis L f hc)
       \<and> (spec_fits L f hc 1000 (rk_seed L 1) = Inr (ps, g) \<longrightarrow>
            length ps = 1000 \<and> (\<forall>p\<in>set ps. length p = 11)
            \<and> mean_vector ps = map (\<lambda>j. sum_list (map (\<lambda>p. p ! j) ps) / 1000) [0..<11])
       \<and> (random_uniform L (- 1) 1 200 v = (X, v1) \<longrightarrow>
            length X = 200
            \<and> ((\<forall>g. 0 \<le> fst (rk_double L g) \<and> fst (rk_double L g) < 1) \<longrightarrow>
                 (\<forall>x\<in>set X. - 1 \<le> x \<and> x < 1)))
       \<and> (random_normal L 2 200 v = (noise, v2) \<longrightarrow>
            length noise = 200
            \<and> noise = map (\<lambda>z. 2 * z) (fst (draws (rk_gauss L) 200 (np_random v))))"
proof (intro conjI impI)
  note v = estimate_h_bar_values[of L f hc w, unfolded mean_hypothesis_values_spec[OF assms]]
  show "map_sum id (\<lambda>(h, w'). (intercept h, deref (coef h) w')) (estimate_h_bar L f hc w) =
           map_sum id (\<lambda>m. (m ! 0, Inr (m[0 := 0]))) (spec_mean_hypothesis L f hc)"
  proof (cases "spec_mean_hypothesis L f hc")
    case (Inl e)
    with v show ?thesis by simp
  next
    case (Inr m)
    with v show ?thesis by auto
  qed
next
  assume s: "spec_fits L f hc 1000 (rk_seed L 1) = Inr (ps, g)"
  then show "length ps = 1000" by (rule spec_fits_length)
  then obtain p ps' where ps: "ps = p # ps'" by (cases ps) auto
  show d: "\<forall>p\<in>set ps. length p = 11" using spec_fits_dimension[OF assms s] .
  with ps \<open>length ps = 1000\<close>
  show "mean_vector ps = map (\<lambda>j. sum_list (map (\<lambda>p. p ! j) ps) / 1000) [0..<11]"
    by (simp add: mean_vector_def)
next
  assume u: "random_uniform L (- 1) 1 200 v = (X, v1)"
  show "length X = 200" using random_uniform_range(1)[OF u] .
  show "\<forall>x\<in>set X. - 1 \<le> x \<and> x < 1"
    if "\<forall>g. 0 \<le> fst (rk_double L g) \<and> fst (rk_double L g) < 1"
    using random_uniform_range(2)[OF u that] .
next
  assume n: "random_normal L 2 200 v = (noise, v2)"
  from random_normal_scaled[OF n] show "length noise = 200" by (rule conjunct1)
  from random_normal_scaled[OF n]
  show "noise = map (\<lambda>z. 2 * z) (fst (draws (rk_gauss L) 200 (np_random v)))"
    by (rule conjunct2)
qed

theorem estimate_h_bar_is_mean_of_fits_witness:
  "solver_shape toy
   \<and> map_sum id (\<lambda>(h, w'). (intercept h, deref (coef h) w'))
        (estimate_h_bar toy constant3 Regularized10thModel \<lparr>ndarrays = [], np_random = 0\<rparr>) =
       Inr (3, Inr (0 # replicate 10 0))
   \<and> spec_fits toy constant3 Regularized10thModel 1000 (rk_seed toy 1) =
       Inr (replicate 1000 (3 # replicate 10 0), 400001)
   \<and> length (replicate 1000 (3 # replicate 10 (0::real))) = 1000
   \<and> mean_vector (replicate 1000 (3 # replicate 10 0)) = 3 # replicate 10 0
   \<and> random_uniform toy (- 1) 1 200 example_world =
       (replicate 200 (- 1), example_world\<lparr>np_random := 207\<rparr>)
   \<and> (\<forall>g. 0 \<le> fst (rk_double toy g) \<and> fst (rk_double toy g) < 1)
   \<and> set (replicate 200 (- 1 :: real)) \<subseteq> {- 1 ..< 1}
   \<and> random_normal toy 2 200 example_world =
       (replicate 200 0, example_world\<lparr>np_random := 207\<rparr>)"
proof -
  have f: "spec_fits toy constant3 Regularized10thModel 1000 (rk_seed toy 1) =
       Inr (replicate 1000 (3 # replicate 10 0), 400001)"
    by (simp add: toy_spec_fits toy_seed)
  have u: "random_uniform toy (- 1) 1 200 example_world =
       (replicate 200 (- 1), example_world\<lparr>np_random := 207\<rparr>)"
    by (simp add: random_uniform_def toy_draws_double example_world_def)
  have n: "random_normal toy 2 200 example_world =
       (replicate 200 0, example_world\<lparr>np_random := 207\<rparr>)"
    by (simp add: random_normal_def toy_draws_gauss example_world_def)
  have r: "\<forall>g. 0 \<le> fst (rk_double toy g) \<and> fst (rk_double toy g) < 1"
    by (simp add: toy_def)
  from estimate_h_bar_is_mean_of_fits [OF toy_shape, of constant3 Regularized10thModel
      "\<lparr>ndarrays = [], np_random = 0\<rparr>" "replicate 1000 (3 # replicate 10 0)" 400001
      example_world "replicate 200 (- 1)" "example_world\<lparr>np_random := 207\<rparr>"
      "replicate 200 0" "example_world\<lparr>np_random := 207\<rparr>"]
    f u n r toy_shape
  show ?thesis
    by (simp add: toy_mean_hypothesis toy_mean_vector)
qed

section \<open>The squared-bias estimate\<close>

text \<open>
  C2. For an estimator whose grid is the one the constructor sets and whose target
  returns one value per grid point: the grid is the 200 points \<open>-1 + i / 100\<close>,
  \<^verbatim>\<open>bias2()\<close> fails exactly when the mean hypothesis fails on the grid, and
  otherwise returns the mean over the 200 grid points of the squared differences
  between the mean hypothesis's predictions and the target's values, the squares
  being float squares; it returns
  whenever the mean hypothesis holds 11 coefficients; and it does not depend on the
  generator, whose state it cannot change.
\<close>

theorem bias2_is_grid_mean:
  assumes "sample_x self = np_arange (- 1) 1 (1 / 100)"
    and "length (target self (sample_x self)) = length (sample_x self)"
  shows "sample_x self = map (\<lambda>i. - 1 + real i / 100) [0..<200]
       \<and> bias2 self w =
           (case call (h_bar self) (sample_x self) w of
              Inl e \<Rightarrow> Inl e
            | Inr hx \<Rightarrow> Inr ((\<Sum>i<200. underflow ((hx ! i - target self (sample_x self) ! i) ^ 2)) / 200))
       \<and> (call (h_bar self) (sample_x self) w = Inr hx \<longrightarrow> length hx = 200)
       \<and> (deref (coef (h_bar self)) w = Inr c \<and> length c = 11 \<longrightarrow>
            (\<exists>hx. call (h_bar self) (sample_x self) w = Inr hx))
       \<and> bias2 self (w\<lparr>np_random := g\<rparr>) = bias2 self w"
proof (intro conjI impI)
  show grid: "sample_x self = map (\<lambda>i. - 1 + real i / 100) [0..<200]"
    using assms(1) by (simp add: sample_grid)
  then have len: "length (sample_x self) = 200" by simp
  show "bias2 self w =
           (case call (h_bar self) (sample_x self) w of
              Inl e \<Rightarrow> Inl e
            | Inr hx \<Rightarrow> Inr ((\<Sum>i<200. underflow ((hx ! i - target self (sample_x self) ! i) ^ 2)) / 200))"
  proof (cases "call (h_bar self) (sample_x self) w")
    case (Inl e)
    then show ?thesis by (simp add: bias2_def)
  next
    case (Inr hx')
    from call_length[OF Inr] len have "length hx' = 200" by simp
    with bias2_same_length[OF Inr assms(2)] Inr show ?thesis
      by (simp add: mean_squared_difference_def)
  qed
  show "length hx = 200" if "call (h_bar self) (sample_x self) w = Inr hx"
    using call_length[OF that] len by simp
  show "\<exists>hx. call (h_bar self) (sample_x self) w = Inr hx"
    if "deref (coef (h_bar self)) w = Inr c \<and> length c = 11"
  proof -
    from len have "sample_x self \<noteq> []" by auto
    moreover from assms(1) sample_grid_range
    have "\<forall>v\<in>set (sample_x self). \<bar>v\<bar> \<le> 2 ^ 102" by simp
    ultimately show ?thesis
      using that by (simp add: call_bound_predict bound_predict_11)
  qed
  show "bias2 self (w\<lparr>np_random := g\<rparr>) = bias2 self w"
    by (simp add: bias2_def call_ignores_generator)
qed

theorem bias2_is_grid_mean_witness:
  "sample_x (example_estimator 5) = np_arange (- 1) 1 (1 / 100)
   \<and> length (target (example_estimator 5) (sample_x (example_estimator 5))) =
       length (sample_x (example_estimator 5))
   \<and> call (h_bar (example_estimator 5)) (sample_x (example_estimator 5)) example_world =
       Inr (replicate 200 5)
   \<and> bias2 (example_estimator 5) example_world = Inr 4
   \<and> bias2 (example_estimator 5) (example_world\<lparr>np_random := 8\<rparr>) = Inr 4"
proof -
  have g: "sample_x (example_estimator 5) = np_arange (- 1) 1 (1 / 100)"
    by (simp add: example_estimator_def)
  have l: "length (target (example_estimator 5) (sample_x (example_estimator 5))) =
       length (sample_x (example_estimator 5))"
    by (simp add: example_target) (simp add: example_estimator_def sample_grid)
  have s: "(\<Sum>i<200. underflow ((replicate 200 5 ! i - replicate 200 (3::real) ! i) ^ 2)) = 800"
  proof -
    have "(\<Sum>i<200. underflow ((replicate 200 5 ! i - replicate 200 (3::real) ! i) ^ 2)) =
          (\<Sum>i<(200::nat). 4)"
      by (rule sum.cong) (simp_all add: underflow_def)
    then show ?thesis by simp
  qed
  note T = bias2_is_grid_mean [OF g l, of example_world "replicate 200 5" "replicate 11 0" 8]
  from T have e: "bias2 (example_estimator 5) example_world =
      (case call (h_bar (example_estimator 5)) (sample_x (example_estimator 5)) example_world of
         Inl e \<Rightarrow> Inl e
       | Inr hx \<Rightarrow>
           Inr ((\<Sum>i<200. underflow ((hx ! i -
                  target (example_estimator 5) (sample_x (example_estimator 5)) ! i) ^ 2)) / 200))"
    by blast
  have b: "bias2 (example_estimator 5) example_world = Inr 4"
    unfolding e example_call example_target using s by simp
  from T have "bias2 (example_estimator 5) (example_world\<lparr>np_random := 8\<rparr>) =
      bias2 (example_estimator 5) example_world"
    by blast
  with b g l example_call[of 5] show ?thesis
    by (simp only: simp_thms)
qed

section \<open>The variance estimate\<close>

text \<open>
  C3. For an estimator whose mean hypothesis holds a stored coefficient array \<open>c\<close>,
  \<^verbatim>\<open>variance()\<close> fails or returns exactly as the variance pass of the specification
  does, and returns its value: it reseeds the generator with 1, runs 1000 trials, in
  each regenerates the data set as the mean-hypothesis pass does, fits and binds a trial
  predictor, takes the mean squared difference between its predictions and the mean
  hypothesis's on the trial's own 200 features, and returns the mean of the 1000 values.
\<close>

theorem variance_is_mean_of_trial_variances:
  assumes "deref (coef (h_bar self)) w = Inr c"
  shows "map_sum id fst (variance L self w) =
           spec_variance L (target self) (hypothesis_class self)
             (bound_predict c (intercept (h_bar self)))"
  using variance_spec[OF assms, of L]
  by (auto split: sum.splits)

theorem variance_is_mean_of_trial_variances_witness:
  "deref (coef (h_bar (example_estimator 5))) example_world = Inr (replicate 11 0)
   \<and> map_sum id fst (variance toy (example_estimator 5) example_world) = Inr 4"
proof -
  have "spec_variance toy (target (example_estimator 5)) (hypothesis_class (example_estimator 5))
          (bound_predict (replicate 11 0) (intercept (h_bar (example_estimator 5)))) = Inr 4"
    using toy_variance_any[of Regularized10thModel 5]
    by (simp add: example_estimator_def underflow_def)
  with variance_is_mean_of_trial_variances [OF example_deref[of 5], where L = toy]
    example_deref[of 5]
  show ?thesis by simp
qed

section \<open>Signs of the estimates\<close>




section \<open>Dimensions of parameter vectors\<close>

text \<open>
  C5, as the code has it. With a solver that returns one coefficient per column,
  \<^verbatim>\<open>train\<close> of a degree-10 class returns a vector of length 11 whenever it returns.
  \<^verbatim>\<open>assign\<close> does not look at the length of its argument: for every vector with at
  least one slot it returns a predictor, and a length other than 11 shows only when that
  predictor is called, as the \<^verbatim>\<open>ValueError\<close> of the matrix product; the empty vector
  is refused by the read of slot 0, with an \<^verbatim>\<open>IndexError\<close>.
\<close>

theorem train_length_assign_unchecked:
  assumes "solver_shape L" and "hc \<noteq> HypothesisSpace"
  shows "(train L hc X y w = Inr (r, w') \<longrightarrow> (\<exists>p. deref r w' = Inr p \<and> length p = 11))
       \<and> (deref params v = Inr a \<and> a \<noteq> [] \<longrightarrow>
            (\<exists>h v1. assign hc params v = Inr (h, v1)
               \<and> (x \<noteq> [] \<and> length a \<noteq> 11 \<longrightarrow> call h x v1 = Inl ValueError)))
       \<and> (deref params v = Inr [] \<longrightarrow> assign hc params v = Inl IndexError)"
proof (intro conjI impI)
  assume "train L hc X y w = Inr (r, w')"
  then obtain p where p: "fitted L hc X y = Inr p"
    and r: "r = length (ndarrays w)" and w': "w' = w\<lparr>ndarrays := ndarrays w @ [p]\<rparr>"
    by (auto simp: train_fitted split: sum.splits)
  from fitted_length[OF assms(1) p] r w'
  show "\<exists>p. deref r w' = Inr p \<and> length p = 11"
    by (simp add: deref_def)
next
  assume h: "deref params v = Inr a \<and> a \<noteq> []"
  let ?h = "\<lparr>coef = params, intercept = a ! 0\<rparr>"
  let ?v1 = "v\<lparr>ndarrays := (ndarrays v)[params := a[0 := 0]]\<rparr>"
  from h have a: "assign hc params v = Inr (?h, ?v1)"
    by (simp add: assign_deref[OF assms(2)])
  from h have d: "deref (coef ?h) ?v1 = Inr (a[0 := 0])"
    by (auto simp: deref_def split: if_splits)
  have "x \<noteq> [] \<and> length a \<noteq> 11 \<longrightarrow> call ?h x ?v1 = Inl ValueError"
    by (simp add: call_bound_predict[OF d] bound_predict_mismatch)
  with a show "\<exists>h v1. assign hc params v = Inr (h, v1)
               \<and> (x \<noteq> [] \<and> length a \<noteq> 11 \<longrightarrow> call h x v1 = Inl ValueError)"
    by blast
next
  assume "deref params v = Inr []"
  then show "assign hc params v = Inl IndexError"
    by (simp add: assign_deref[OF assms(2)])
qed

lemma toy_train_one_observation:
  "train toy UnRegularized10thModel [1 / 2] [1] \<lparr>ndarrays = [], np_random = 0\<rparr> =
     Inr (0, \<lparr>ndarrays = [[1, 0, 0, 0, 0, 0, 0, 0, 0, 0, 0]], np_random = 0\<rparr>)"
  by code_simp

theorem train_length_assign_unchecked_witness:
  "solver_shape toy \<and> UnRegularized10thModel \<noteq> HypothesisSpace
   \<and> train toy UnRegularized10thModel [1 / 2] [1] \<lparr>ndarrays = [], np_random = 0\<rparr> =
       Inr (0, \<lparr>ndarrays = [[1, 0, 0, 0, 0, 0, 0, 0, 0, 0, 0]], np_random = 0\<rparr>)
   \<and> (\<exists>p. deref 0 \<lparr>ndarrays = [[1, 0, 0, 0, 0, 0, 0, 0, 0, 0, 0]], np_random = (0::nat)\<rparr> = Inr p
          \<and> length p = 11)
   \<and> deref 0 \<lparr>ndarrays = [[1, 2]], np_random = ()\<rparr> = Inr [1, 2]
   \<and> (\<exists>h v1. assign UnRegularized10thModel 0 \<lparr>ndarrays = [[1, 2]], np_random = ()\<rparr> = Inr (h, v1)
          \<and> call h [0] v1 = Inl ValueError)
   \<and> deref 0 \<lparr>ndarrays = [[]], np_random = ()\<rparr> = Inr []
   \<and> assign UnRegularized10thModel 0 \<lparr>ndarrays = [[]], np_random = ()\<rparr> = Inl IndexError"
proof -
  have d: "deref 0 \<lparr>ndarrays = [[1, 2]], np_random = ()\<rparr> = Inr [1, 2]"
    and e: "deref 0 \<lparr>ndarrays = [[]], np_random = ()\<rparr> = Inr []"
    by (simp_all add: deref_def)
  note t = train_length_assign_unchecked [OF toy_shape, of UnRegularized10thModel]
  from t [of "[1 / 2]" "[1]" "\<lparr>ndarrays = [], np_random = 0\<rparr>" 0
        "\<lparr>ndarrays = [[1, 0, 0, 0, 0, 0, 0, 0, 0, 0, 0]], np_random = 0\<rparr>"
        0 "\<lparr>ndarrays = [[1, 2]], np_random = ()\<rparr>" "[1, 2]" "[0]"]
    t [of "[]" "[]" "\<lparr>ndarrays = [], np_random = 0\<rparr>" 0 "\<lparr>ndarrays = [], np_random = 0\<rparr>"
        0 "\<lparr>ndarrays = [[]], np_random = ()\<rparr>" "[]" "[]"]
    toy_train_one_observation toy_shape
  show ?thesis by (simp add: d e)
qed

text \<open>The claim's rejection at bind time fails: a vector of length 2 is bound.\<close>

theorem bind_rejects_wrong_length_counterexample:
  "assign UnRegularized10thModel 0 \<lparr>ndarrays = [[1, 2]], np_random = ()\<rparr> =
     Inr (\<lparr>coef = 0, intercept = 1\<rparr>, \<lparr>ndarrays = [[0, 2]], np_random = ()\<rparr>)"
  by (simp add: assign10_def getitem_def setitem_def deref_def overwrite_def)


section \<open>Failures of fitting\<close>

text \<open>
  C6, as the code has it. \<^verbatim>\<open>train\<close> of a degree-10 class validates nothing itself.
  It fails exactly when it is given no observation at all (the basis expansion raises
  \<^verbatim>\<open>ValueError\<close>) or when \<^verbatim>\<open>fit\<close> of the estimator raises, and then with that
  error; whenever the estimator returns coefficients, for any number of observations
  from one on and for labels of any length that the estimator accepts, \<^verbatim>\<open>train\<close>
  returns them with the intercept in slot 0.
\<close>

theorem train_has_no_validation:
  assumes "solver_shape L"
    and "hc = UnRegularized10thModel \<and> est = LinearRegression
         \<or> hc = Regularized10thModel \<and> est = Ridge 2"
  shows "(isl (train L hc X y w) \<longleftrightarrow>
            X = [] \<or> isl (linear_fit L est (powers10 X) y))
       \<and> (X = [] \<longrightarrow> train L hc X y w = Inl ValueError)
       \<and> (X \<noteq> [] \<and> linear_fit L est (powers10 X) y = Inl e
            \<longrightarrow> train L hc X y w = Inl e)
       \<and> (X \<noteq> [] \<and> linear_fit L est (powers10 X) y = Inr (c, b)
            \<longrightarrow> train L hc X y w =
                  Inr (length (ndarrays w), w\<lparr>ndarrays := ndarrays w @ [c[0 := b]]\<rparr>))"
proof -
  let ?A = "powers10 X"
  have t: "train L hc X' y w = train10 L est X' y w" for X'
    using assms(2) by auto
  have nonempty: "c' \<noteq> []" if "X \<noteq> []" and "linear_fit L est ?A y = Inr (c', b')" for c' b'
  proof -
    from that(1) obtain v rest where "X = v # rest" by (cases X) auto
    then have "(case ?A of [] \<Rightarrow> 0 | row # _ \<Rightarrow> length row) = 11"
      by (simp add: powers10_def)
    with assms(1) that(2) have "length c' = 11"
      unfolding solver_shape_def by metis
    then show ?thesis by auto
  qed
  show ?thesis
  proof (cases "X = []")
    case True
    then show ?thesis
      by (simp add: t train10_fitted10 fitted10_def fit_transform_10)
  next
    case False
    show ?thesis
    proof (cases "linear_fit L est ?A y")
      case (Inl e')
      with False show ?thesis
        by (simp add: t train10_fitted10 fitted10_def fit_transform_10)
    next
      case (Inr cb)
      obtain c' b' where cb: "cb = (c', b')" by (cases cb)
      from nonempty[OF False] Inr cb have "c' \<noteq> []" by simp
      with False Inr cb show ?thesis
        by (simp add: t train10_fitted10 fitted10_def fit_transform_10)
    qed
  qed
qed

lemma toy_fit_two_observations:
  "linear_fit toy (Ridge 2) (powers10 [0, 1]) [3, 5] =
     Inr ([0, 0, 0, 0, 0, 0, 0, 0, 0, 0, 0], 4)"
  by code_simp

lemma toy_fit_mismatch:
  "linear_fit toy (Ridge 2) (powers10 [0, 1]) [3] = Inl ValueError"
  by code_simp

theorem train_has_no_validation_witness:
  "solver_shape toy
   \<and> train toy Regularized10thModel [0, 1] [3, 5] \<lparr>ndarrays = [], np_random = 0\<rparr> =
       Inr (0, \<lparr>ndarrays = [[4, 0, 0, 0, 0, 0, 0, 0, 0, 0, 0]], np_random = 0\<rparr>)
   \<and> train toy Regularized10thModel [0, 1] [3] \<lparr>ndarrays = [], np_random = 0\<rparr> = Inl ValueError
   \<and> train toy Regularized10thModel [] [] \<lparr>ndarrays = [], np_random = 0\<rparr> = Inl ValueError"
proof -
  note t = train_has_no_validation [OF toy_shape, of Regularized10thModel "Ridge 2"]
  from t [of "[0, 1]" "[3, 5]" "\<lparr>ndarrays = [], np_random = 0\<rparr>" ValueError
          "[0, 0, 0, 0, 0, 0, 0, 0, 0, 0, 0]" 4]
       t [of "[0, 1]" "[3]" "\<lparr>ndarrays = [], np_random = 0\<rparr>" ValueError "[]" 0]
       t [of "[]" "[]" "\<lparr>ndarrays = [], np_random = 0\<rparr>" ValueError "[]" 0]
       toy_shape
  show ?thesis
    by (simp add: toy_fit_two_observations toy_fit_mismatch)
qed

text \<open>
  The claim's rejection of fewer observations than basis dimensions fails: one
  observation is fitted, with the library that answers a single observation as sklearn
  does.
\<close>

theorem fit_rejects_few_observations_counterexample:
  "train toy UnRegularized10thModel [1 / 2] [1] \<lparr>ndarrays = [], np_random = 0\<rparr> =
     Inr (0, \<lparr>ndarrays = [[1, 0, 0, 0, 0, 0, 0, 0, 0, 0, 0]], np_random = 0\<rparr>)"
  by code_simp


section \<open>Determinism\<close>

text \<open>
  C7. Two constructions with the same target, the same hypothesis space and the same
  libraries, started in any two stores and generator states, fail alike or yield
  estimators that agree in all that can be observed: the intercept and the coefficient
  array of the mean hypothesis, the output of \<^verbatim>\<open>bias2()\<close> and the output of
  \<^verbatim>\<open>variance()\<close>. By \<open>outputs_repeat\<close> later calls return the same outputs again.
\<close>

theorem two_constructions_agree:
  "map_sum id
     (\<lambda>(self, w'). (intercept (h_bar self), deref (coef (h_bar self)) w', bias2 self w',
                     map_sum id fst (variance L self w')))
     (BiasVariance_init L f hc w1) =
   map_sum id
     (\<lambda>(self, w'). (intercept (h_bar self), deref (coef (h_bar self)) w', bias2 self w',
                     map_sum id fst (variance L self w')))
     (BiasVariance_init L f hc w2)"
proof (cases "mean_hypothesis_values L f hc")
  case (Inl e)
  with BiasVariance_init_values[of L f hc w1] BiasVariance_init_values[of L f hc w2]
  show ?thesis by simp
next
  case (Inr bc)
  obtain b c where bc: "bc = (b, c)" by (cases bc)
  have obs: "map_sum id
     (\<lambda>(self, w'). (intercept (h_bar self), deref (coef (h_bar self)) w', bias2 self w',
                     map_sum id fst (variance L self w')))
     (BiasVariance_init L f hc w) =
     Inr (b, Inr c,
          (case bound_predict c b (np_arange (- 1) 1 (1 / 100)) of
             Inl e \<Rightarrow> Inl e
           | Inr hx \<Rightarrow>
               (case np_subtract hx (f (np_arange (- 1) 1 (1 / 100))) of
                  Inl e \<Rightarrow> Inl e
                | Inr d \<Rightarrow> np_mean (np_square d))),
          spec_variance L f hc (bound_predict c b))" for w
  proof -
    from BiasVariance_init_values[of L f hc w] Inr bc obtain self w' where
      i: "BiasVariance_init L f hc w = Inr (self, w')" and "target self = f"
      "hypothesis_class self = hc" "sample_x self = np_arange (- 1) 1 (1 / 100)"
      "intercept (h_bar self) = b" and d: "deref (coef (h_bar self)) w' = Inr c"
      by auto
    then show ?thesis
      using bias2_values[OF d] variance_values[OF d, of L] by (simp cong: sum.case_cong)
  qed
  show ?thesis by (simp only: obs)
qed

theorem two_constructions_agree_witness:
  "map_sum id
     (\<lambda>(self, w'). (intercept (h_bar self), deref (coef (h_bar self)) w', bias2 self w',
                     map_sum id fst (variance toy self w')))
     (BiasVariance_init toy constant3 Regularized10thModel \<lparr>ndarrays = [], np_random = 0\<rparr>) =
     Inr (3, Inr (replicate 11 0), Inr 0, Inr 0)
   \<and> map_sum id
     (\<lambda>(self, w'). (intercept (h_bar self), deref (coef (h_bar self)) w', bias2 self w',
                     map_sum id fst (variance toy self w')))
     (BiasVariance_init toy constant3 Regularized10thModel \<lparr>ndarrays = [[7]], np_random = 99\<rparr>) =
     Inr (3, Inr (replicate 11 0), Inr 0, Inr 0)"
proof -
  let ?w = "\<lparr>ndarrays = [], np_random = 0::nat\<rparr>"
  from BiasVariance_init_values[of toy constant3 Regularized10thModel ?w]
  obtain self w' where i: "BiasVariance_init toy constant3 Regularized10thModel ?w = Inr (self, w')"
    and t: "target self = constant3" and h: "hypothesis_class self = Regularized10thModel"
    and x: "sample_x self = np_arange (- 1) 1 (1 / 100)"
    and b: "intercept (h_bar self) = 3"
    and d: "deref (coef (h_bar self)) w' = Inr (replicate 11 0)"
    by (auto simp: toy_mean_hypothesis_values)
  have n: "np_arange (- 1) 1 (1 / 100) \<noteq> []" and len: "length (np_arange (- 1) 1 (1 / 100)) = 200"
    by (simp_all add: sample_grid)
  have c: "call (h_bar self) (sample_x self) w' = Inr (replicate 200 3)"
    using constant_predictor[OF n sample_grid_range, of 3]
    by (simp add: call_bound_predict[OF d] b x len)
  have tg: "target self (sample_x self) = replicate 200 3"
    by (simp add: t x constant3_def sample_grid map_replicate_const)
  have l2: "length (target self (sample_x self)) = length (sample_x self)"
    unfolding tg by (simp add: x len)
  have "bias2 self w' = Inr 0"
    unfolding bias2_same_length[OF c l2] tg by (simp add: mean_squared_difference_same)
  moreover have "map_sum id fst (variance toy self w') = Inr 0"
    using variance_values[OF d, of toy] toy_variance_any[of Regularized10thModel 3]
    by (simp add: t h b underflow_def)
  ultimately have "map_sum id
     (\<lambda>(self, w'). (intercept (h_bar self), deref (coef (h_bar self)) w', bias2 self w',
                     map_sum id fst (variance toy self w')))
     (BiasVariance_init toy constant3 Regularized10thModel ?w) =
     Inr (3, Inr (replicate 11 0), Inr 0, Inr 0)"
    using i b d by simp
  with two_constructions_agree [of toy constant3 Regularized10thModel ?w
      "\<lparr>ndarrays = [[7]], np_random = 99\<rparr>"]
  show ?thesis by simp
qed

section \<open>The data sets of the two passes\<close>

text \<open>
  C8. \<^verbatim>\<open>_estimate_h_bar\<close> runs its loop as \<open>estimate_loop\<close> for 1000 trials from the
  store reseeded with 1, and \<^verbatim>\<open>variance()\<close> runs its loop as \<open>variance_loop\<close> for 1000
  trials from the store reseeded with 1. Either loop, generating its data sets by its
  own three lines, is the loop that takes the data set of trial \<open>i\<close> from position \<open>i\<close>
  of one and the same list and does the rest of the trial with it: the list of the
  1000 data sets of the specification from seed 1 on, each with the generator state it
  leaves. So the data set generated in trial \<open>i\<close> of the mean-hypothesis pass and the
  one generated in trial \<open>i\<close> of the variance pass are the same pair of features and
  labels, for every trial that both passes reach, whatever the stores the two passes
  are started in.
\<close>

theorem passes_generate_identical_datasets:
  "estimate_loop L (target self) hc 1000 None (random_seed L 1 w) =
     run_trials (estimate_trial L hc) (spec_datasets L (target self) 1000 (rk_seed L 1))
       None (random_seed L 1 w)
   \<and> variance_loop L self 1000 [] (random_seed L 1 w') =
       run_trials (variance_trial L self) (spec_datasets L (target self) 1000 (rk_seed L 1))
         [] (random_seed L 1 w')
   \<and> length (spec_datasets L (target self) 1000 (rk_seed L 1)) = 1000"
proof (intro conjI)
  have s: "np_random (random_seed L 1 v) = rk_seed L 1" for v :: "'a world"
    by (simp add: random_seed_def)
  show "estimate_loop L (target self) hc 1000 None (random_seed L 1 w) =
     run_trials (estimate_trial L hc) (spec_datasets L (target self) 1000 (rk_seed L 1))
       None (random_seed L 1 w)"
    using estimate_loop_run_trials[of L "target self" hc 1000 None "random_seed L 1 w"]
    by (simp only: s)
  show "variance_loop L self 1000 [] (random_seed L 1 w') =
       run_trials (variance_trial L self) (spec_datasets L (target self) 1000 (rk_seed L 1))
         [] (random_seed L 1 w')"
    using variance_loop_run_trials[of L self 1000 "[]" "random_seed L 1 w'"]
    by (simp only: s)
  show "length (spec_datasets L (target self) 1000 (rk_seed L 1)) = 1000"
    by (rule spec_datasets_length)
qed

theorem passes_generate_identical_datasets_witness:
  "estimate_loop toy constant3 UnRegularized10thModel 1000 None
       (random_seed toy 1 \<lparr>ndarrays = [], np_random = 0\<rparr>) =
     run_trials (estimate_trial toy UnRegularized10thModel)
       (map (\<lambda>i. (Inr (replicate 200 (- 1), replicate 200 3), 1 + 400 * Suc i)) [0..<1000])
       None (random_seed toy 1 \<lparr>ndarrays = [], np_random = 0\<rparr>)
   \<and> variance_loop toy (example_estimator 5) 1000 [] (random_seed toy 1 example_world) =
       run_trials (variance_trial toy (example_estimator 5))
         (map (\<lambda>i. (Inr (replicate 200 (- 1), replicate 200 3), 1 + 400 * Suc i)) [0..<1000])
         [] (random_seed toy 1 example_world)"
proof -
  have t: "target (example_estimator 5) = constant3"
    by (simp add: example_estimator_def)
  from passes_generate_identical_datasets
    [of toy "example_estimator 5" UnRegularized10thModel "\<lparr>ndarrays = [], np_random = 0\<rparr>"
      example_world]
  show ?thesis
    unfolding t toy_datasets toy_seed by simp
qed

section \<open>Binding a parameter vector\<close>

text \<open>
  C9. \<^verbatim>\<open>assign(params)\<close> of either degree-10 class writes into the caller's array:
  for a parameter vector \<open>a\<close> with at least one slot, the call returns, the store after
  the call is the store before it with slot 0 of that one array set to 0 (the other
  slots, every other array and the generator are as before), no array has been
  allocated, and the predictor holds the very reference it was given, with the old
  slot 0 as its intercept.
\<close>

theorem assign_mutates_argument_in_place:
  assumes "hc \<noteq> HypothesisSpace" and "deref params w = Inr a" and "a \<noteq> []"
  shows "assign hc params w =
           Inr (\<lparr>coef = params, intercept = a ! 0\<rparr>, w\<lparr>ndarrays := (ndarrays w)[params := a[0 := 0]]\<rparr>)
         \<and> deref params (w\<lparr>ndarrays := (ndarrays w)[params := a[0 := 0]]\<rparr>) = Inr (a[0 := 0])
         \<and> (a[0 := 0]) ! 0 = 0
         \<and> drop 1 (a[0 := 0]) = drop 1 a
         \<and> length ((ndarrays w)[params := a[0 := 0]]) = length (ndarrays w)"
proof -
  from assms(2) have r: "params < length (ndarrays w)" and a: "ndarrays w ! params = a"
    by (auto simp: deref_def split: if_splits)
  have "assign10 params w =
      Inr (\<lparr>coef = params, intercept = a ! 0\<rparr>, w\<lparr>ndarrays := (ndarrays w)[params := a[0 := 0]]\<rparr>)"
    using assms(3) r a by (simp add: assign10_def getitem_def setitem_def deref_def overwrite_def)
  moreover have "assign hc params w = assign10 params w"
    using assms(1) by (cases hc) simp_all
  moreover have "drop 1 (a[0 := 0]) = drop 1 a"
    by (cases a) simp_all
  ultimately show ?thesis
    using assms(3) r by (simp add: deref_def)
qed

theorem assign_mutates_argument_in_place_witness:
  "assign UnRegularized10thModel 0 \<lparr>ndarrays = [[3, 4, 5]], np_random = ()\<rparr> =
     Inr (\<lparr>coef = 0, intercept = 3\<rparr>, \<lparr>ndarrays = [[0, 4, 5]], np_random = ()\<rparr>)"
  using assign_mutates_argument_in_place
    [of UnRegularized10thModel 0 "\<lparr>ndarrays = [[3, 4, 5]], np_random = ()\<rparr>" "[3, 4, 5]"]
  by (simp add: deref_def)

section \<open>Calling a predictor\<close>

text \<open>
  C10, as the code has it. \<^verbatim>\<open>assign\<close> of a degree-10 class returns a predictor for
  every parameter vector of length 11. Called on an input array with at least one
  entry, that predictor returns an array of the same length if every entry of the
  input is at most \<open>2^102\<close> in absolute value, and raises \<^verbatim>\<open>ValueError\<close> if an entry
  is at least \<open>2^103\<close> in absolute value, its tenth power not being a float; and
  whenever the predictor returns, the output has the length of the input.
\<close>

theorem predictor_length_preserving:
  assumes "hc \<noteq> HypothesisSpace" and "deref params w = Inr a" and "length a = 11" and "x \<noteq> []"
  shows "\<exists>h w1. assign hc params w = Inr (h, w1)
           \<and> ((\<forall>v\<in>set x. \<bar>v\<bar> \<le> 2 ^ 102) \<longrightarrow>
                (\<exists>out. call h x w1 = Inr out \<and> length out = length x))
           \<and> ((\<exists>v\<in>set x. 2 ^ 103 \<le> \<bar>v\<bar>) \<longrightarrow> call h x w1 = Inl ValueError)
           \<and> (\<forall>out. call h x w1 = Inr out \<longrightarrow> length out = length x)"
proof -
  let ?h = "\<lparr>coef = params, intercept = a ! 0\<rparr>"
  let ?w1 = "w\<lparr>ndarrays := (ndarrays w)[params := a[0 := 0]]\<rparr>"
  from assms(3) have "a \<noteq> []" by auto
  then have a: "assign hc params w = Inr (?h, ?w1)"
    by (simp add: assign_deref[OF assms(1,2)])
  from assms(2) have d: "deref (coef ?h) ?w1 = Inr (a[0 := 0])"
    by (auto simp: deref_def split: if_splits)
  have c: "call ?h x ?w1 = bound_predict (a[0 := 0]) (a ! 0) x"
    using call_bound_predict[OF d, of x] by simp
  have "\<exists>out. call ?h x ?w1 = Inr out \<and> length out = length x"
    if "\<forall>v\<in>set x. \<bar>v\<bar> \<le> 2 ^ 102"
    unfolding c using assms(3,4) that by (simp add: bound_predict_11)
  moreover have "call ?h x ?w1 = Inl ValueError" if "\<exists>v\<in>set x. 2 ^ 103 \<le> \<bar>v\<bar>"
    unfolding c using that by (auto intro: bound_predict_overflow)
  moreover have "length out = length x" if "call ?h x ?w1 = Inr out" for out
    using that unfolding c by (rule bound_predict_length)
  ultimately show ?thesis using a by blast
qed

theorem predictor_length_preserving_witness:
  "\<exists>h w1.
     assign Regularized10thModel 0
       \<lparr>ndarrays = [[1, 2, 0, 0, 0, 0, 0, 0, 0, 0, 3]], np_random = ()\<rparr> = Inr (h, w1)
     \<and> (\<exists>out. call h [0, 1, - 1] w1 = Inr out \<and> length out = 3)
     \<and> call h [2 ^ 103] w1 = Inl ValueError"
proof -
  have d: "deref 0 \<lparr>ndarrays = [[1, 2, 0, 0, 0, 0, 0, 0, 0, 0, 3]], np_random = ()\<rparr> =
    Inr [1, 2, 0, 0, 0, 0, 0, 0, 0, 0, 3]"
    by (simp add: deref_def)
  from predictor_length_preserving [of Regularized10thModel 0 _ _ "[0, 1, - 1]", OF _ d]
    predictor_length_preserving [of Regularized10thModel 0 _ _ "[2 ^ 103]", OF _ d]
  show ?thesis by auto
qed

text \<open>
  The claim fails on inputs whose tenth power is not a float: the predictor bound
  to a vector of length 11 raises on the input of length 1 that holds \<open>2^103\<close>.
\<close>

theorem predictor_total_counterexample:
  "assign Regularized10thModel 0
     \<lparr>ndarrays = [[1, 2, 0, 0, 0, 0, 0, 0, 0, 0, 3]], np_random = ()\<rparr> =
     Inr (\<lparr>coef = 0, intercept = 1\<rparr>,
          \<lparr>ndarrays = [[0, 2, 0, 0, 0, 0, 0, 0, 0, 0, 3]], np_random = ()\<rparr>)
   \<and> call \<lparr>coef = 0, intercept = 1\<rparr> [2 ^ 103]
       \<lparr>ndarrays = [[0, 2, 0, 0, 0, 0, 0, 0, 0, 0, 3]], np_random = ()\<rparr> = Inl ValueError"
proof
  have d: "deref 0 \<lparr>ndarrays = [[1, 2, 0, 0, 0, 0, 0, 0, 0, 0, 3]], np_random = ()\<rparr> =
    Inr [1, 2, 0, 0, 0, 0, 0, 0, 0, 0, 3]"
    by (simp add: deref_def)
  show "assign Regularized10thModel 0
     \<lparr>ndarrays = [[1, 2, 0, 0, 0, 0, 0, 0, 0, 0, 3]], np_random = ()\<rparr> =
     Inr (\<lparr>coef = 0, intercept = 1\<rparr>,
          \<lparr>ndarrays = [[0, 2, 0, 0, 0, 0, 0, 0, 0, 0, 3]], np_random = ()\<rparr>)"
    using assign_deref[of Regularized10thModel, OF _ d] by simp
  have e: "deref (coef \<lparr>coef = 0, intercept = 1\<rparr>)
      \<lparr>ndarrays = [[0, 2, 0, 0, 0, 0, 0, 0, 0, 0, 3]], np_random = ()\<rparr> =
    Inr [0, 2, 0, 0, 0, 0, 0, 0, 0, 0, 3]"
    by (simp add: deref_def)
  show "call \<lparr>coef = 0, intercept = 1\<rparr> [2 ^ 103]
       \<lparr>ndarrays = [[0, 2, 0, 0, 0, 0, 0, 0, 0, 0, 3]], np_random = ()\<rparr> = Inl ValueError"
    unfolding call_bound_predict[OF e]
    by (rule bound_predict_overflow[of "2 ^ 103"]) simp_all
qed

end
